theory Spec2Isabelle
  imports Complex_Main "HOL-Library.Word" "HOL-Library.Signed_Division" "HOL-Library.Log_Nat"
begin

unbundle bit_operations_syntax

section \<open>filetwm: data model\<close>

text \<open>
  The source file \<^verbatim>\<open>filetwm.c\<close> holds two revisions of the program one after the
  other. The embedding follows the later one (the one with the launcher), from
  its second \<^verbatim>\<open>/* See LICENSE file ... */\<close> header on.

  \<^item> A \<^verbatim>\<open>Client *\<close> is an address \<open>cref\<close>; \<open>None\<close> is \<^verbatim>\<open>NULL\<close>. The
    structs live in \<open>store\<close>, so that \<^verbatim>\<open>sel\<close>, \<^verbatim>\<open>pinned\<close> and \<^verbatim>\<open>raised\<close>
    alias the clients of the registry as they do in C.
  \<^item> The linked list headed by \<^verbatim>\<open>clients\<close> (through \<^verbatim>\<open>next\<close>) is the list
    \<open>clients\<close> of addresses, head first.
  \<^item> C \<^verbatim>\<open>int\<close> is \<open>int\<close>: signed overflow is undefined in C and the model
    describes the runs without it. \<^verbatim>\<open>/\<close> on ints is \<open>sdiv\<close> (truncation).
  \<^item> \<^verbatim>\<open>unsigned int\<close> bit masks are \<open>32 word\<close>.
  \<^item> A \<^verbatim>\<open>float\<close> (\<^verbatim>\<open>mfact\<close>, \<^verbatim>\<open>mina\<close>, \<^verbatim>\<open>maxa\<close>) is the rational it
    denotes. Every float operation rounds its exact result to the nearest
    single-precision value, ties to even (\<open>f32\<close>), and every double operation
    to the nearest double (\<open>f64\<close>), as IEEE 754 arithmetic without excess
    precision does. Exponent range, infinities and NaN are not values of the
    model: a division by zero is written out where the code has one. A
    conversion of a float to \<^verbatim>\<open>int\<close> drops the fraction (\<open>ftoi\<close>).
  \<^item> The flags \<^verbatim>\<open>isfloating\<close>, \<^verbatim>\<open>fstate\<close>, \<^verbatim>\<open>isfullscreen\<close> and \<^verbatim>\<open>barfocus\<close>
    are C ints that the program only ever assigns 0 or 1; they are \<open>bool\<close>.
  \<^item> Requests to the X server that never flow back into the program's state
    (borders, input focus, window moves, the sibling chain of the restack) are
    left out. Two effects are kept: the root property
    \<^verbatim>\<open>_NET_CLIENT_LIST_STACKING\<close> (\<open>netclistack\<close>) and whether the pointer is
    grabbed (\<open>ptrgrab\<close>).
  \<^item> The fields \<^verbatim>\<open>x, y, w, h\<close> of a client are \<open>cx, cy, cw, ch\<close>.
\<close>

type_synonym Window = nat
type_synonym cref = nat

record Client =
  mina :: rat
  maxa :: rat
  cx :: int
  cy :: int
  cw :: int
  ch :: int
  fx :: int
  fy :: int
  fw :: int
  fh :: int
  basew :: int
  baseh :: int
  maxw :: int
  maxh :: int
  minw :: int
  minh :: int
  bw :: int
  fbw :: int
  isfloating :: bool
  fstate :: bool
  isfullscreen :: bool
  tags :: "32 word"
  win :: Window

record Monitor =
  mx :: int
  my :: int
  mw :: int
  mh :: int

datatype ctrl = DragMove | DragSize | DragTile | WinEdge | ZoomStack | CtrlNone

datatype stackmode = CliPin | CliRaise | CliZoom | CliRemove | BarShow | BarHide | CliNone

record wm =
  store :: "cref \<Rightarrow> Client"
  clients :: "cref list"
  pinned :: "cref option"
  raised :: "cref option"
  sel :: "cref option"
  tagset :: "32 word"
  tagslen :: nat
  barfocus :: bool
  ctrlmode :: ctrl
  mons :: "Monitor list"
  mfact :: "rat list"
  nmain :: "int list"
  snap :: int
  sw :: int
  sh :: int
  netclistack :: "Window list"
  ptrgrab :: bool

section \<open>Macros\<close>

definition ISVISIBLE :: "wm \<Rightarrow> Client \<Rightarrow> bool" where
  "ISVISIBLE s c = (tags c AND tagset s \<noteq> 0)"

definition INMON :: "int \<Rightarrow> int \<Rightarrow> Monitor \<Rightarrow> bool" where
  "INMON X Y M = (X \<ge> mx M \<and> X < mx M + mw M \<and> Y \<ge> my M \<and> Y < my M + mh M)"

definition HEIGHT :: "Client \<Rightarrow> int" where
  "HEIGHT c = ch c + 2 * bw c"

definition WIDTH :: "Client \<Rightarrow> int" where
  "WIDTH c = cw c + 2 * bw c"

definition ONMON :: "Client \<Rightarrow> Monitor \<Rightarrow> bool" where
  "ONMON c M = INMON (cx c + WIDTH c sdiv 2) (cy c + HEIGHT c sdiv 2) M"

text \<open>\<^verbatim>\<open>((1 << tagslen) - 1)\<close>. The C shift is on a signed int and is undefined
  from \<^verbatim>\<open>tagslen\<close> 31 on; the model has the value of the 32-bit wrap-around
  there.\<close>

definition TAGMASK :: "wm \<Rightarrow> 32 word" where
  "TAGMASK s = push_bit (tagslen s) 1 - 1"

section \<open>Floats\<close>

text \<open>Rounding of a rational to the nearest integer, ties to the even one.\<close>

definition rnd_even :: "rat \<Rightarrow> int" where
  "rnd_even x = (let n = \<lfloor>x\<rfloor>; d = x - of_int n
     in if d < 1 / 2 then n else if 1 / 2 < d then n + 1 else if even n then n else n + 1)"

definition pow2 :: "int \<Rightarrow> rat" where
  "pow2 e = (if 0 \<le> e then 2 ^ nat e else 1 / 2 ^ nat (- e))"

text \<open>The number of binary digits of a positive integer.\<close>

function bitlen :: "int \<Rightarrow> int" where
  "bitlen n = (if 0 < n then bitlen (n div 2) + 1 else 0)"
  by pat_completeness auto
termination
  by (relation "measure nat") auto

text \<open>The binary exponent of a nonzero \<open>x\<close>: the \<open>e\<close> with \<open>2^e \<le> |x| < 2^(e+1)\<close>.\<close>

definition fexp :: "rat \<Rightarrow> int" where
  "fexp x = (if 1 \<le> \<bar>x\<bar> then bitlen \<lfloor>\<bar>x\<bar>\<rfloor> - 1
             else - bitlen (\<lceil>1 / \<bar>x\<bar>\<rceil> - 1))"

text \<open>The multiple of \<open>u\<close> nearest to \<open>x\<close>, ties to the even multiple.\<close>

definition toquantum :: "rat \<Rightarrow> rat \<Rightarrow> rat" where
  "toquantum u x = of_int (rnd_even (x / u)) * u"

text \<open>Rounding to a binary float with a significand of \<open>p\<close> bits.\<close>

definition fround :: "nat \<Rightarrow> rat \<Rightarrow> rat" where
  "fround p x = (if x = 0 then 0 else toquantum (pow2 (fexp x - int p + 1)) x)"

definition f32 :: "rat \<Rightarrow> rat" where
  "f32 = fround 24"

definition f64 :: "rat \<Rightarrow> rat" where
  "f64 = fround 53"

text \<open>Conversion of a float to \<^verbatim>\<open>int\<close>: the fraction is dropped.\<close>

definition ftoi :: "rat \<Rightarrow> int" where
  "ftoi r = (if r \<ge> 0 then \<lfloor>r\<rfloor> else \<lceil>r\<rceil>)"

text \<open>
  \<^verbatim>\<open>a < (float)p / q\<close> for a float \<open>a\<close> and ints \<open>p\<close>, \<open>q\<close>: both ints are
  converted to float and the quotient is rounded. With \<open>q = 0\<close> the quotient
  is an infinity of the sign of \<open>p\<close>, or a NaN when \<open>p = 0\<close>, and the
  comparison holds for the positive infinity only.
\<close>

definition flt_ratio :: "rat \<Rightarrow> int \<Rightarrow> int \<Rightarrow> bool" where
  "flt_ratio a p q =
     (if q = 0 then p > 0 else a < f32 (f32 (of_int p) / f32 (of_int q)))"

text \<open>
  \<^verbatim>\<open>MIN(0.95, MAX(0.05, (float)W / M))\<close> as it is stored into a float: the
  quotient is a float, the two comparisons with the double constants are made
  in double, and the assignment rounds to float. For \<open>M = 0\<close> the quotient is
  an infinity, which the clamp brings to one of the constants, or a NaN when
  \<open>W = 0\<close> too; the NaN passes the two comparisons unchanged, and it is the
  result \<open>None\<close>.
\<close>

definition clampratio :: "int \<Rightarrow> int \<Rightarrow> rat option" where
  "clampratio W M =
     (if M = 0 then
        (if 0 < W then Some (f32 (f64 (95 / 100)))
         else if W < 0 then Some (f32 (f64 (5 / 100)))
         else None)
      else Some (f32 (min (f64 (95 / 100)) (max (f64 (5 / 100))
             (f32 (f32 (of_int W) / f32 (of_int M)))))))"

section \<open>Monitor searches\<close>

text \<open>
  \<^verbatim>\<open>for (m = 0; m < monslen-1 && !INMON(X, Y, mons[m]); m++);\<close>
  stops at the first monitor holding the point, or at the last monitor.
\<close>

fun monfirst :: "Monitor list \<Rightarrow> int \<Rightarrow> int \<Rightarrow> nat" where
  "monfirst [] X Y = 0"
| "monfirst [M] X Y = 0"
| "monfirst (M # Ms) X Y = (if INMON X Y M then 0 else Suc (monfirst Ms X Y))"

text \<open>
  \<^verbatim>\<open>for (m2 = 0; m2 < monslen && !INMON(X, Y, mons[m2]); m2++);\<close>
  stops at the first monitor holding the point, or at \<^verbatim>\<open>monslen\<close>.
\<close>

fun monfirstall :: "Monitor list \<Rightarrow> int \<Rightarrow> int \<Rightarrow> nat" where
  "monfirstall [] X Y = 0"
| "monfirstall (M # Ms) X Y = (if INMON X Y M then 0 else Suc (monfirstall Ms X Y))"

text \<open>
  \<^verbatim>\<open>for (m = monslen-1; m > 0 && !P(mons[m]); m--);\<close> from a start index:
  the highest monitor satisfying \<open>P\<close>, or monitor 0.
\<close>

fun monlast :: "Monitor list \<Rightarrow> (Monitor \<Rightarrow> bool) \<Rightarrow> nat \<Rightarrow> nat" where
  "monlast ms P 0 = 0"
| "monlast ms P (Suc m) = (if P (ms ! Suc m) then Suc m else monlast ms P m)"

section \<open>Utility functions\<close>

text \<open>\<^verbatim>\<open>attach\<close>: add a client to the top of the list.\<close>

definition attach :: "cref \<Rightarrow> wm \<Rightarrow> wm" where
  "attach c s = s\<lparr>clients := c # clients s\<rparr>"

text \<open>
  \<^verbatim>\<open>detach\<close>: unlink a client of the list. (For a client that is not in the
  list the C code would splice the client's own \<^verbatim>\<open>next\<close> chain at the tail; no
  caller does that and the list model has no \<^verbatim>\<open>next\<close> for such a client.)
\<close>

definition detach :: "cref \<Rightarrow> wm \<Rightarrow> wm" where
  "detach c s = s\<lparr>clients := remove1 c (clients s)\<rparr>"

text \<open>
  \<^verbatim>\<open>resize\<close>. Its locals \<^verbatim>\<open>x, y, w, h\<close> are a record \<open>geo\<close>, and three of its
  blocks are functions of their own: the edge snapping of a floating window
  (\<open>snapgeom\<close>), the aspect limits (\<open>aspectlimit\<close>) and the base, minimum and
  maximum sizes (\<open>sizelimit\<close>).
\<close>

record geo =
  gx :: int
  gy :: int
  gw :: int
  gh :: int

text \<open>\<^verbatim>\<open>/* find monitor so as to snap position to edges */\<close> and the two
  snapping steps, for a client of border width \<open>b\<close>.\<close>

definition snapgeom :: "wm \<Rightarrow> int \<Rightarrow> geo \<Rightarrow> geo" where
  "snapgeom s b g =
    (let M1 = mons s ! monfirst (mons s) (gx g + snap s) (gy g + snap s);
         M2 = mons s ! monfirst (mons s) (gx g + gw g - snap s) (gy g + gh g - snap s);
         x = (if \<bar>mx M1 - gx g\<bar> < snap s then mx M1 else gx g);
         y = (if \<bar>my M1 - gy g\<bar> < snap s then my M1 else gy g);
         w = (if \<bar>(mx M2 + mw M2) - (x + gw g + 2 * b)\<bar> < snap s
              then mx M2 + mw M2 - x - 2 * b else gw g);
         h = (if \<bar>(my M2 + mh M2) - (y + gh g + 2 * b)\<bar> < snap s
              then my M2 + mh M2 - y - 2 * b else gh g)
     in \<lparr>gx = x, gy = y, gw = w, gh = h\<rparr>)"

text \<open>\<^verbatim>\<open>/* adjust for aspect limits */\<close>, on the size less the base size. In
  \<^verbatim>\<open>w = h * c->maxa + 0.5\<close> the product is a float and the sum a double.\<close>

definition aspectlimit :: "Client \<Rightarrow> geo \<Rightarrow> geo" where
  "aspectlimit cl g =
    (if mina cl > 0 \<and> maxa cl > 0 \<and> \<not> isfullscreen cl then
       if flt_ratio (maxa cl) (gw g) (gh g)
       then g\<lparr>gw := ftoi (f64 (f32 (f32 (of_int (gh g)) * maxa cl) + 1 / 2))\<rparr>
       else if flt_ratio (mina cl) (gh g) (gw g)
       then g\<lparr>gh := ftoi (f64 (f32 (f32 (of_int (gw g)) * mina cl) + 1 / 2))\<rparr>
       else g
     else g)"

text \<open>\<^verbatim>\<open>/* restore base dimensions and apply max and min dimensions */\<close>.\<close>

definition sizelimit :: "Client \<Rightarrow> geo \<Rightarrow> geo" where
  "sizelimit cl g =
    (let w = max (gw g + basew cl) (minw cl);
         h = max (gh g + baseh cl) (minh cl)
     in g\<lparr>gw := (if maxw cl \<noteq> 0 \<and> \<not> isfullscreen cl then min w (maxw cl) else w),
          gh := (if maxh cl \<noteq> 0 \<and> \<not> isfullscreen cl then min h (maxh cl) else h)\<rparr>)"

text \<open>
  The final test \<^verbatim>\<open>if (x != c->x || ...)\<close> only saves the X requests: the four
  assignments it guards store the values the fields already have when the test
  fails, so the model assigns always.
\<close>

definition resize :: "cref \<Rightarrow> int \<Rightarrow> int \<Rightarrow> int \<Rightarrow> int \<Rightarrow> wm \<Rightarrow> wm" where
  "resize c x0 y0 w0 h0 s =
    (let cl = store s c;
         w1 = max 1 w0;
         h1 = max 1 h0;
         x1 = max (1 - w1 - 2 * bw cl) (min (sw s - 1) x0);
         y1 = max (1 - h1 - 2 * bw cl) (min (sh s - 1) y0);
         g1 = \<lparr>gx = x1, gy = y1, gw = w1, gh = h1\<rparr>;
         fl = (isfloating cl \<and> \<not> isfullscreen cl);
         cl1 = (if fl then cl\<lparr>fx := x1, fy := y1, fw := w1, fh := h1\<rparr> else cl);
         g2 = (if fl then snapgeom s (bw cl) g1 else g1);
         g3 = sizelimit cl (aspectlimit cl
                (g2\<lparr>gw := gw g2 - basew cl, gh := gh g2 - baseh cl\<rparr>))
     in s\<lparr>store := (store s)(c := cl1\<lparr>cx := gx g3, cy := gy g3,
                                         cw := gw g3, ch := gh g3\<rparr>)\<rparr>)"

section \<open>Stacking and focus\<close>

text \<open>The layer number \<^verbatim>\<open>!c->isfloating + 2*c->isfullscreen\<close>.\<close>

definition layer :: "Client \<Rightarrow> nat" where
  "layer c = (if isfloating c then 0 else 1) + 2 * (if isfullscreen c then 1 else 0)"

text \<open>
  The inner loop of the layer pass, for one layer \<open>l\<close>: every client of the
  layer that is neither pinned nor raised is prepended to the property
  (\<^verbatim>\<open>PROPADD(Prepend, ...)\<close> puts the new window in front of the data).
\<close>

fun stacklayer :: "wm \<Rightarrow> nat \<Rightarrow> cref list \<Rightarrow> Window list \<Rightarrow> Window list" where
  "stacklayer s l [] prop = prop"
| "stacklayer s l (c # cs) prop =
     stacklayer s l cs
       (if Some c \<noteq> pinned s \<and> Some c \<noteq> raised s \<and> layer (store s c) = l
        then win (store s c) # prop else prop)"

text \<open>
  The part of \<^verbatim>\<open>restack\<close> after the \<^verbatim>\<open>switch\<close>: lift the pinned client, then
  rebuild the property.
\<close>

definition liftpinned :: "wm \<Rightarrow> wm" where
  "liftpinned s =
    (case pinned s of
       None \<Rightarrow> s
     | Some p \<Rightarrow> if isfloating (store s p) then attach p (detach p s) else s)"

definition publish :: "wm \<Rightarrow> wm" where
  "publish s =
    (let p0 = [];
         p1 = (case pinned s of None \<Rightarrow> p0 | Some p \<Rightarrow> win (store s p) # p0);
         p2 = (case raised s of None \<Rightarrow> p1 | Some r \<Rightarrow> win (store s r) # p1);
         p3 = stacklayer s 0 (clients s) p2;
         p4 = stacklayer s 1 (clients s) p3;
         p5 = stacklayer s 2 (clients s) p4
     in s\<lparr>netclistack := p5\<rparr>)"

text \<open>
  \<^verbatim>\<open>restack\<close> and \<^verbatim>\<open>focus\<close> call each other: \<^verbatim>\<open>restack\<close> with a bar mode calls
  \<^verbatim>\<open>focus(sel)\<close>, and \<^verbatim>\<open>focus\<close> ends with \<^verbatim>\<open>restack(NULL, CliNone)\<close>.
  \<^verbatim>\<open>restack(NULL, CliRemove)\<close> would dereference the null pointer in
  \<^verbatim>\<open>detach\<close>; no caller passes it, and the model leaves the registry alone there.
\<close>

function restack :: "cref option \<Rightarrow> stackmode \<Rightarrow> wm \<Rightarrow> wm"
  and focus :: "cref option \<Rightarrow> wm \<Rightarrow> wm" where
  "restack c mode s =
    (if (mode = BarHide \<or> mode = BarShow) \<and> barfocus s = (mode = BarShow) then s
     else
       let s1 =
         (case mode of
            CliPin \<Rightarrow> s\<lparr>pinned := (if pinned s \<noteq> c then c else None)\<rparr>
          | CliRemove \<Rightarrow>
              (let sd = (case c of None \<Rightarrow> s | Some k \<Rightarrow> detach k s)
               in sd\<lparr>pinned := (if pinned sd \<noteq> c then pinned sd else None),
                     raised := (if raised sd \<noteq> c then raised sd else None),
                     sel := (if sel sd \<noteq> c then sel sd else None)\<rparr>)
          | BarHide \<Rightarrow> focus (sel s) (s\<lparr>barfocus := False\<rparr>)
          | BarShow \<Rightarrow> focus (sel s) (s\<lparr>barfocus := True\<rparr>)
          | CliZoom \<Rightarrow>
              (case c of None \<Rightarrow> s | Some k \<Rightarrow> attach k (detach k s))\<lparr>raised := c\<rparr>
          | CliRaise \<Rightarrow> s\<lparr>raised := c\<rparr>
          | CliNone \<Rightarrow> s)
       in publish (liftpinned s1))"
| "focus c s =
    (let vis = (\<lambda>k. ISVISIBLE s (store s k));
         c1 = (if (case c of None \<Rightarrow> True | Some k \<Rightarrow> \<not> vis k)
                  \<and> (case sel s of None \<Rightarrow> True | Some k \<Rightarrow> \<not> vis k)
               then find vis (clients s)
               else if (case c of None \<Rightarrow> True | Some k \<Rightarrow> \<not> vis k) then sel s
               else c)
     in restack None CliNone (s\<lparr>sel := c1\<rparr>))"
  by pat_completeness auto
termination
  by (relation "measure (\<lambda>a. case a of
        Inl (c, mode, s) \<Rightarrow> (if mode = BarHide \<or> mode = BarShow then 2 else 0)
      | Inr (c, s) \<Rightarrow> 1)") auto

section \<open>General functions\<close>

text \<open>
  \<^verbatim>\<open>arrange\<close>. The monitor of a client is found by the downward search with
  \<^verbatim>\<open>ONMON\<close>. The arrays \<^verbatim>\<open>nm\<close>, \<^verbatim>\<open>i\<close>, \<^verbatim>\<open>my\<close>, \<^verbatim>\<open>ty\<close> (32 ints each, all
  zero at the start) are functions of the monitor index; the C arrays hold no
  more than 32 monitors. The divisors of the third loop count clients that the
  second loop has counted and the third has not yet passed, the current one
  included; a zero divisor, on which C would trap, needs a client that occurs
  twice in the list.
\<close>

definition climon :: "wm \<Rightarrow> Client \<Rightarrow> nat" where
  "climon s c = monlast (mons s) (ONMON c) (length (mons s) - 1)"

text \<open>Second loop: the number of tiled clients in each monitor.\<close>

fun counttiled :: "wm \<Rightarrow> cref list \<Rightarrow> (nat \<Rightarrow> int) \<Rightarrow> (nat \<Rightarrow> int)" where
  "counttiled s [] nm = nm"
| "counttiled s (c # cs) nm =
     (if \<not> isfloating (store s c) \<and> ISVISIBLE s (store s c)
      then counttiled s cs (nm(climon s (store s c) := nm (climon s (store s c)) + 1))
      else counttiled s cs nm)"

text \<open>
  The local \<^verbatim>\<open>mw\<close> of the third loop,
  \<^verbatim>\<open>nm[m] > nmain[m] ? mons[m].mw * mfact[m] : mons[m].mw\<close>: the conditional
  expression has type float, so both branches go through float before the
  assignment to the int drops the fraction.
\<close>

definition colwidth :: "(nat \<Rightarrow> int) \<Rightarrow> wm \<Rightarrow> nat \<Rightarrow> int" where
  "colwidth nm s m =
     ftoi (if nm m > nmain s ! m
           then f32 (f32 (of_int (mw (mons s ! m))) * (mfact s ! m))
           else f32 (of_int (mw (mons s ! m))))"

text \<open>
  Third loop: one step for the client \<open>c\<close>, with the counters \<open>i\<close>, \<open>ym\<close>
  (\<^verbatim>\<open>my\<close>) and \<open>yt\<close> (\<^verbatim>\<open>ty\<close>).
\<close>

type_synonym tilecnt = "(nat \<Rightarrow> int) \<times> (nat \<Rightarrow> int) \<times> (nat \<Rightarrow> int)"

definition tilestep :: "(nat \<Rightarrow> int) \<Rightarrow> cref \<Rightarrow> tilecnt \<times> wm \<Rightarrow> tilecnt \<times> wm" where
  "tilestep nm c a =
    (case a of ((i, ym, yt), s) \<Rightarrow>
      if \<not> isfloating (store s c) \<and> ISVISIBLE s (store s c) then
        (let m = climon s (store s c);
             M = mons s ! m;
             mw' = colwidth nm s m
         in if i m < nmain s ! m then
              (let h = (mh M - ym m) sdiv (min (nm m) (nmain s ! m) - i m);
                   s1 = resize c (mx M) (my M + ym m) (mw' - 2 * bw (store s c))
                          (h - 2 * bw (store s c)) s;
                   ym1 = (if ym m + HEIGHT (store s1 c) < mh M
                          then ym(m := ym m + HEIGHT (store s1 c)) else ym)
               in ((i(m := i m + 1), ym1, yt), s1))
            else
              (let h = (mh M - yt m) sdiv (nm m - i m);
                   s1 = resize c (mx M + mw') (my M + yt m)
                          (mw M - mw' - 2 * bw (store s c)) (h - 2 * bw (store s c)) s;
                   yt1 = (if yt m + HEIGHT (store s1 c) < mh M
                          then yt(m := yt m + HEIGHT (store s1 c)) else yt)
               in ((i(m := i m + 1), ym, yt1), s1)))
      else a)"

fun tileloop :: "(nat \<Rightarrow> int) \<Rightarrow> cref list \<Rightarrow> tilecnt \<times> wm \<Rightarrow> tilecnt \<times> wm" where
  "tileloop nm [] a = a"
| "tileloop nm (c # cs) a = tileloop nm cs (tilestep nm c a)"

definition arrange :: "wm \<Rightarrow> wm" where
  "arrange s =
    (let s1 = focus None s;
         nm = counttiled s1 (clients s1) (\<lambda>_. 0);
         s2 = snd (tileloop nm (clients s1) (((\<lambda>_. 0), (\<lambda>_. 0), (\<lambda>_. 0)), s1))
     in restack (sel s2) CliRaise s2)"

text \<open>
  \<^verbatim>\<open>grabresizeabort\<close>. \<^verbatim>\<open>mons[m].mh / HEIGHT(sel)\<close> traps for a client of full
  height 0, whatever was stored in \<^verbatim>\<open>mfact[m]\<close> just before: the result
  \<open>DivByZero\<close>. Otherwise a NaN stored in \<^verbatim>\<open>mfact[m]\<close> (a client of full width 0
  on a monitor of width 0) is the result \<open>NanFactor\<close>, with which the model
  stops: the rationals have no value for it.
\<close>

datatype fault = DivByZero | NanFactor

definition grabresizeabort :: "wm \<Rightarrow> fault + wm" where
  "grabresizeabort s =
    (if ctrlmode s = CtrlNone \<or> ctrlmode s = ZoomStack then Inr s
     else
       (case sel s of
          Some k \<Rightarrow>
            if ctrlmode s = DragTile then
              (let m = monfirst (mons s) (cx (store s k)) (cy (store s k))
               in if HEIGHT (store s k) = 0 then Inl DivByZero
                  else
                    case clampratio (WIDTH (store s k)) (mw (mons s ! m)) of
                      None \<Rightarrow> Inl NanFactor
                    | Some f \<Rightarrow>
                        Inr ((arrange (s\<lparr>mfact := (mfact s)[m := f],
                                nmain := (nmain s)[m :=
                                  max 1 (mh (mons s ! m) sdiv HEIGHT (store s k))]\<rparr>))
                              \<lparr>ptrgrab := False, ctrlmode := CtrlNone\<rparr>))
            else Inr (s\<lparr>ptrgrab := False, ctrlmode := CtrlNone\<rparr>)
        | None \<Rightarrow> Inr (s\<lparr>ptrgrab := False, ctrlmode := CtrlNone\<rparr>)))"

text \<open>\<^verbatim>\<open>setfullscreen\<close>.\<close>

definition setfullscreen :: "cref \<Rightarrow> bool \<Rightarrow> wm \<Rightarrow> wm" where
  "setfullscreen c fullscreen s =
    arrange
      (if fullscreen \<and> \<not> isfullscreen (store s c) then
         (let cl = (store s c)\<lparr>isfullscreen := True, fstate := isfloating (store s c),
                      fbw := bw (store s c), bw := 0, isfloating := True\<rparr>;
              s1 = s\<lparr>store := (store s)(c := cl)\<rparr>;
              m1 = monlast (mons s) (INMON (cx cl) (cy cl)) (length (mons s) - 1);
              m2 = monfirstall (mons s) (cx cl + WIDTH cl) (cy cl + HEIGHT cl);
              m2' = (if m2 = length (mons s)
                        \<or> mx (mons s ! m2) + mw (mons s ! m2) \<le> mx (mons s ! m1)
                        \<or> my (mons s ! m2) + mh (mons s ! m2) \<le> my (mons s ! m1)
                     then m1 else m2);
              w = mx (mons s ! m2') - mx (mons s ! m1) + mw (mons s ! m2');
              h = my (mons s ! m2') - my (mons s ! m1) + mh (mons s ! m2')
          in restack (Some c) CliZoom
               (resize c (mx (mons s ! m1)) (my (mons s ! m1)) w h s1))
       else if \<not> fullscreen \<and> isfullscreen (store s c) then
         (let cl = (store s c)\<lparr>isfullscreen := False, isfloating := fstate (store s c),
                      bw := fbw (store s c)\<rparr>;
              s1 = s\<lparr>store := (store s)(c := cl)\<rparr>
          in resize c (fx cl) (fy cl) (fw cl) (fh cl) s1)
       else s)"

text \<open>\<^verbatim>\<open>unmanage\<close> (the client list property it republishes is not kept).\<close>

definition unmanage :: "cref \<Rightarrow> wm \<Rightarrow> wm" where
  "unmanage c s = arrange (restack (Some c) CliRemove s)"

section \<open>Config callable functions\<close>

text \<open>\<^verbatim>\<open>grabresize\<close>, with \<^verbatim>\<open>arg->i\<close> a drag mode.\<close>

definition grabresize :: "ctrl \<Rightarrow> wm \<Rightarrow> wm" where
  "grabresize argi s =
    (if ctrlmode s = argi then s
     else
       (case sel s of
          None \<Rightarrow> s
        | Some k \<Rightarrow>
            if isfullscreen (store s k) \<or> (argi = DragMove \<and> \<not> isfloating (store s k)) then s
            else
              (let s1 = s\<lparr>ctrlmode := argi\<rparr>;
                   s2 = (if ctrlmode s1 = DragSize \<and> \<not> isfloating (store s1 k)
                         then s1\<lparr>ctrlmode := DragTile\<rparr> else s1);
                   s3 = s2\<lparr>ptrgrab := True\<rparr>
               in if ctrlmode s3 \<noteq> WinEdge then restack (sel s3) CliRaise s3 else s3)))"

text \<open>\<^verbatim>\<open>toggletag\<close>, with \<^verbatim>\<open>arg->ui\<close> the workspace mask.\<close>

definition toggletag :: "32 word \<Rightarrow> wm \<Rightarrow> wm" where
  "toggletag argui s =
    (case sel s of
       None \<Rightarrow> s
     | Some k \<Rightarrow>
         if tags (store s k) XOR (argui AND TAGMASK s) \<noteq> 0 then
           arrange (s\<lparr>store := (store s)(k :=
             (store s k)\<lparr>tags := tags (store s k) XOR (argui AND TAGMASK s)\<rparr>)\<rparr>)
         else s)"

section \<open>Reference orders and example states\<close>

text \<open>A possibly null client reference as the list of the clients it names.\<close>

definition optlist :: "cref option \<Rightarrow> cref list" where
  "optlist r = (case r of None \<Rightarrow> [] | Some k \<Rightarrow> [k])"

text \<open>
  The three sub-layers in the words of the specification, by the flags of a
  client: floating (and not fullscreen), tiled (neither floating nor
  fullscreen), fullscreen.
\<close>

definition floatlayer :: "Client \<Rightarrow> bool" where
  "floatlayer c = (isfloating c \<and> \<not> isfullscreen c)"

definition tiledlayer :: "Client \<Rightarrow> bool" where
  "tiledlayer c = (\<not> isfloating c \<and> \<not> isfullscreen c)"

definition fulllayer :: "Client \<Rightarrow> bool" where
  "fulllayer c = isfullscreen c"

text \<open>The clients of the registry that are neither pinned nor raised and
  satisfy \<open>P\<close>, in registry order.\<close>

definition sublayer :: "wm \<Rightarrow> (Client \<Rightarrow> bool) \<Rightarrow> cref list" where
  "sublayer s P =
     filter (\<lambda>c. Some c \<noteq> pinned s \<and> Some c \<noteq> raised s \<and> P (store s c)) (clients s)"

text \<open>
  The stacking order of the specification, topmost first: the pinned client,
  the raised client (once, when it is the pinned one), then the floating, the
  tiled and the fullscreen clients that are neither, each sub-layer in
  registry order.
\<close>

definition stackorder :: "wm \<Rightarrow> Window list" where
  "stackorder s =
     map (\<lambda>c. win (store s c))
       (optlist (pinned s)
        @ (if raised s = pinned s then [] else optlist (raised s))
        @ sublayer s floatlayer
        @ sublayer s tiledlayer
        @ sublayer s fulllayer)"

text \<open>The clients that the layer pass of \<^verbatim>\<open>restack\<close> takes up for the layer
  number \<open>l\<close>.\<close>

definition inlayer :: "wm \<Rightarrow> nat \<Rightarrow> cref \<Rightarrow> bool" where
  "inlayer s l c = (Some c \<noteq> pinned s \<and> Some c \<noteq> raised s \<and> layer (store s c) = l)"

text \<open>
  Every fullscreen client of the registry carries the floating flag, as
  \<^verbatim>\<open>setfullscreen\<close> leaves it; and the pinned and the raised reference do not
  name the same client.
\<close>

definition fullfloat :: "wm \<Rightarrow> bool" where
  "fullfloat s = (\<forall>c \<in> set (clients s). isfullscreen (store s c) \<longrightarrow> isfloating (store s c))"

definition pinnedapart :: "wm \<Rightarrow> bool" where
  "pinnedapart s = (pinned s = None \<or> pinned s \<noteq> raised s)"

text \<open>Whether a possibly null reference names a visible client.\<close>

definition visref :: "wm \<Rightarrow> cref option \<Rightarrow> bool" where
  "visref s r = (case r of None \<Rightarrow> False | Some k \<Rightarrow> ISVISIBLE s (store s k))"

text \<open>
  The choice of \<^verbatim>\<open>focus\<close> in the words of the specification: the candidate if
  it is given and visible, else the previous selection if visible, else the
  first visible client in registry order, else none.
\<close>

definition focus_choice :: "cref option \<Rightarrow> wm \<Rightarrow> cref option" where
  "focus_choice c s =
     (if visref s c then c
      else if visref s (sel s) then sel s
      else find (\<lambda>k. ISVISIBLE s (store s k)) (clients s))"

text \<open>A client as \<^verbatim>\<open>calloc\<close> returns it.\<close>

definition client0 :: Client where
  "client0 = \<lparr>mina = 0, maxa = 0, cx = 0, cy = 0, cw = 0, ch = 0,
     fx = 0, fy = 0, fw = 0, fh = 0, basew = 0, baseh = 0, maxw = 0, maxh = 0,
     minw = 0, minh = 0, bw = 0, fbw = 0, isfloating = False, fstate = False,
     isfullscreen = False, tags = 0, win = 0\<rparr>"

text \<open>
  The state after \<^verbatim>\<open>setup\<close> with \<^verbatim>\<open>defaultconfig\<close> (nine workspaces, snap 8,
  \<^verbatim>\<open>mfact\<close> 0.6, \<^verbatim>\<open>nmain\<close> 1) on one 1920x1080 screen, before any window is
  managed. The initialiser \<^verbatim>\<open>{0.6}\<close> of the float array is the double constant
  rounded to float.
\<close>

definition wm0 :: wm where
  "wm0 = \<lparr>store = (\<lambda>_. client0), clients = [], pinned = None, raised = None,
     sel = None, tagset = 1, tagslen = 9, barfocus = False, ctrlmode = CtrlNone,
     mons = [\<lparr>mx = 0, my = 0, mw = 1920, mh = 1080\<rparr>], mfact = [f32 (f64 (6 / 10))],
     nmain = [1], snap = 8, sw = 1920, sh = 1080, netclistack = [], ptrgrab = False\<rparr>"

text \<open>
  A tiled client on workspace 1 with the default border of one pixel and no
  size hints, for the window \<open>v\<close>.
\<close>

definition tiledclient :: "Window \<Rightarrow> Client" where
  "tiledclient v = client0\<lparr>win := v, tags := 1, bw := 1\<rparr>"

text \<open>
  Three tiled clients A, B, C at the addresses 1, 2, 3, attached in this order
  to the empty registry.
\<close>

definition tiled3 :: wm where
  "tiled3 = attach 3 (attach 2 (attach 1
     (wm0\<lparr>store := (\<lambda>k. tiledclient (100 + k))\<rparr>)))"

text \<open>
  Three clients on workspace 1: address 1 floating and pinned, address 2
  floating and selected, address 3 tiled.
\<close>

definition stack3 :: wm where
  "stack3 = wm0\<lparr>store := (\<lambda>k. (tiledclient (100 + k))\<lparr>isfloating := (k \<noteq> 3)\<rparr>),
     clients := [3, 2, 1], pinned := Some 1, sel := Some 2\<rparr>"

text \<open>
  A fullscreen client at address 1 whose hints ask for a width of at least 3000
  and a height of at most 600.
\<close>

definition fullhint :: wm where
  "fullhint = wm0\<lparr>store := (\<lambda>k. (tiledclient (100 + k))\<lparr>isfloating := True,
       isfullscreen := True, bw := 0, minw := 3000, maxh := 600\<rparr>),
     clients := [1], sel := Some 1\<rparr>"

text \<open>
  Seven clients on workspace 1, registry order 7 .. 1: address 1 floating and
  pinned, 2 floating and selected, 3 and 6 tiled, 4 and 7 floating, 5
  fullscreen.
\<close>

definition stack7 :: wm where
  "stack7 = wm0\<lparr>store := (\<lambda>k. (tiledclient (100 + k))\<lparr>isfloating := (k \<noteq> 3 \<and> k \<noteq> 6),
        isfullscreen := (k = 5)\<rparr>),
     clients := [7, 6, 5, 4, 3, 2, 1], pinned := Some 1, sel := Some 2\<rparr>"

text \<open>The rectangle a window covers on screen, border included.\<close>

definition rect :: "Client \<Rightarrow> int \<times> int \<times> int \<times> int" where
  "rect c = (cx c, cy c, WIDTH c, HEIGHT c)"

text \<open>A client without size hints, as \<^verbatim>\<open>updatesizehints\<close> leaves it when the
  window declares none.\<close>

definition nohints :: "Client \<Rightarrow> bool" where
  "nohints c = (basew c = 0 \<and> baseh c = 0 \<and> minw c = 0 \<and> minh c = 0
     \<and> maxw c = 0 \<and> maxh c = 0 \<and> mina c = 0 \<and> maxa c = 0)"

text \<open>
  The visible tiled clients that \<^verbatim>\<open>arrange\<close> places on monitor \<open>m\<close>, in
  registry order; those that go to the main region (the first \<^verbatim>\<open>nmain[m]\<close>) and
  those that go to the secondary region (the rest).
\<close>

definition ontile :: "wm \<Rightarrow> nat \<Rightarrow> cref \<Rightarrow> bool" where
  "ontile s m c = (\<not> isfloating (store s c) \<and> ISVISIBLE s (store s c)
     \<and> climon s (store s c) = m)"

definition tiledon :: "wm \<Rightarrow> nat \<Rightarrow> cref list" where
  "tiledon s m = filter (ontile s m) (clients s)"

definition maintiles :: "wm \<Rightarrow> nat \<Rightarrow> cref list" where
  "maintiles s m = take (nat (nmain s ! m)) (tiledon s m)"


text \<open>
  The width of the main region of monitor \<open>m\<close>: the monitor width times the main
  factor when the monitor has more tiled clients than the main region takes,
  the whole monitor width otherwise, in the arithmetic of \<open>colwidth\<close>.
\<close>

definition mainwidth :: "wm \<Rightarrow> nat \<Rightarrow> int" where
  "mainwidth s m = colwidth (\<lambda>j. int (length (tiledon s j))) s m"

text \<open>
  The layout parameters after a tile drag that ends with the selected client
  \<open>k\<close> on monitor \<open>m\<close>: the main factor is the clamped ratio of the full width
  of the client to the monitor width, the main count the floored quotient of
  the monitor height by the full height of the client, at least 1.
\<close>

definition dragparams :: "wm \<Rightarrow> cref \<Rightarrow> nat \<Rightarrow> wm" where
  "dragparams s k m =
     s\<lparr>mfact := (mfact s)[m := the (clampratio (WIDTH (store s k)) (mw (mons s ! m)))],
       nmain := (nmain s)[m := max 1 (mh (mons s ! m) div HEIGHT (store s k))]\<rparr>"



text \<open>The geometry \<^verbatim>\<open>(x, y, w, h)\<close> of a client.\<close>

definition geom :: "Client \<Rightarrow> int \<times> int \<times> int \<times> int" where
  "geom c = (cx c, cy c, cw c, ch c)"

text \<open>
  What \<^verbatim>\<open>resize\<close> reads besides its arguments: of the client, the size hints,
  the border width and the two flags (\<open>sizing\<close>); of the globals, the screen
  size, the snap distance and the monitors (\<open>screen\<close>).
\<close>

definition sizing :: "Client \<Rightarrow> (rat \<times> rat) \<times> (int \<times> int \<times> int \<times> int \<times> int \<times> int) \<times> int \<times> bool \<times> bool" where
  "sizing c = ((mina c, maxa c), (basew c, baseh c, maxw c, maxh c, minw c, minh c),
     bw c, isfloating c, isfullscreen c)"

definition screen :: "wm \<Rightarrow> int \<times> int \<times> int \<times> Monitor list" where
  "screen s = (sw s, sh s, snap s, mons s)"

text \<open>The three tiled clients of \<open>tiled3\<close> after the layout.\<close>

definition tiled3a :: wm where
  "tiled3a = arrange tiled3"

text \<open>
  The end of a tile drag on that layout: the selected client at address 3, in
  the main region, has been dragged to a full width of 1600. And the same with
  a client whose window declares a maximal height of -2, which \<^verbatim>\<open>resize\<close> has
  given the height -2, a full height of 0.
\<close>

definition dragtile3 :: wm where
  "dragtile3 = tiled3a\<lparr>store := (store tiled3a)(3 := (store tiled3a 3)\<lparr>cw := 1598\<rparr>),
     sel := Some 3, ctrlmode := DragTile, ptrgrab := True\<rparr>"

definition dragflat :: wm where
  "dragflat = dragtile3\<lparr>store := (store dragtile3)(3 :=
     (store dragtile3 3)\<lparr>maxh := - 2, ch := - 2\<rparr>)\<rparr>"

text \<open>
  One floating client at address 1, at (100, 100) with size 500x400, which is
  also its remembered floating geometry; and the same client after its window
  has raised its minimum width hint to 800 (\<^verbatim>\<open>updatesizehints\<close> stores hints
  without resizing).
\<close>

definition float1 :: wm where
  "float1 = wm0\<lparr>store := (\<lambda>k. (tiledclient (100 + k))\<lparr>isfloating := True,
        cx := 100, cy := 100, cw := 500, ch := 400,
        fx := 100, fy := 100, fw := 500, fh := 400\<rparr>),
     clients := [1], sel := Some 1\<rparr>"

definition stale1 :: wm where
  "stale1 = float1\<lparr>store := (\<lambda>k. (store float1 k)\<lparr>minw := 800\<rparr>)\<rparr>"

section \<open>Facts about rounding\<close>

declare bitlen.simps [simp del]

lemma bitlen_floorlog: "bitlen n = int (floorlog 2 (nat n))"
proof (induction n rule: bitlen.induct)
  case (1 n)
  show ?case
  proof (cases "0 < n")
    case True
    have "nat n div 2 = nat (n div 2)" using True by (simp add: nat_div_distrib)
    then show ?thesis
      using True 1 by (subst bitlen.simps, subst compute_floorlog) simp
  next
    case False
    then show ?thesis by (subst bitlen.simps, subst compute_floorlog) simp
  qed
qed

lemma pow2_pos: "0 < pow2 e"
  by (simp add: pow2_def)

lemma pow2_powi: "pow2 e = 2 powi e"
  by (simp add: pow2_def power_int_def inverse_eq_divide power_one_over)

lemma pow2_add: "pow2 (a + b) = pow2 a * pow2 b"
  by (simp add: pow2_powi power_int_add)

lemma pow2_nat: "pow2 (int n) = 2 ^ n"
  by (simp add: pow2_def)

lemma pow2_neg: "pow2 (- int n) = 1 / 2 ^ n"
  by (simp add: pow2_powi power_int_minus inverse_eq_divide)

lemma rnd_even_error: "\<bar>of_int (rnd_even x) - x\<bar> \<le> 1 / 2"
proof -
  define d where "d = x - of_int \<lfloor>x\<rfloor>"
  have d: "0 \<le> d" "d < 1" unfolding d_def by linarith+
  have x: "x = of_int \<lfloor>x\<rfloor> + d" by (simp add: d_def)
  have "rnd_even x = \<lfloor>x\<rfloor> \<and> d \<le> 1 / 2 \<or> rnd_even x = \<lfloor>x\<rfloor> + 1 \<and> 1 / 2 \<le> d"
    unfolding rnd_even_def Let_def d_def [symmetric] by auto
  then show ?thesis
  proof
    assume "rnd_even x = \<lfloor>x\<rfloor> \<and> d \<le> 1 / 2"
    then have "of_int (rnd_even x) - x = - d" using x by simp
    then show ?thesis using d \<open>rnd_even x = \<lfloor>x\<rfloor> \<and> d \<le> 1 / 2\<close> by simp
  next
    assume a: "rnd_even x = \<lfloor>x\<rfloor> + 1 \<and> 1 / 2 \<le> d"
    then have "of_int (rnd_even x) - x = 1 - d" using x by simp
    then show ?thesis using d a by simp
  qed
qed

lemma rnd_even_int: "rnd_even (of_int n) = n"
  by (simp add: rnd_even_def)

lemma fexp_bounds:
  assumes "x \<noteq> 0"
  shows "pow2 (fexp x) \<le> \<bar>x\<bar>" and "\<bar>x\<bar> < pow2 (fexp x + 1)"
proof -
  show "pow2 (fexp x) \<le> \<bar>x\<bar>"
  proof (cases "1 \<le> \<bar>x\<bar>")
    case True
    define n where "n = nat \<lfloor>\<bar>x\<bar>\<rfloor>"
    have n1: "0 < n" using True by (simp add: n_def)
    have "2 ^ (floorlog 2 n - 1) \<le> n"
      using floorlog_bounds [of n 2] n1 by simp
    moreover have "0 < floorlog 2 n" using n1 by (simp add: floorlog_def)
    moreover have "of_nat n \<le> \<bar>x\<bar>" using True by (simp add: n_def)
    ultimately have "(2::rat) ^ (floorlog 2 n - 1) \<le> \<bar>x\<bar>"
      by (metis (mono_tags, opaque_lifting) of_nat_le_iff of_nat_numeral of_nat_power
          order_trans)
    moreover have "fexp x = int (floorlog 2 n - 1)"
      using True \<open>0 < floorlog 2 n\<close> by (simp add: fexp_def bitlen_floorlog n_def)
    ultimately show ?thesis by (simp add: pow2_nat)
  next
    case False
    define N where "N = \<lceil>1 / \<bar>x\<bar>\<rceil>"
    define k where "k = floorlog 2 (nat (N - 1))"
    have x0: "0 < \<bar>x\<bar>" using assms by simp
    have "1 < 1 / \<bar>x\<bar>" using False x0 by simp
    then have N2: "2 \<le> N" unfolding N_def by linarith
    have "nat (N - 1) < 2 ^ k"
      using floorlog_bounds [of "nat (N - 1)" 2] N2 by (simp add: k_def)
    then have "N - 1 < 2 ^ k" using N2 by (simp add: nat_less_iff)
    then have "N \<le> 2 ^ k" by simp
    then have "(of_int N :: rat) \<le> 2 ^ k"
      by (metis of_int_le_iff of_int_numeral of_int_power)
    moreover have "1 / \<bar>x\<bar> \<le> of_int N" unfolding N_def by linarith
    ultimately have "1 / \<bar>x\<bar> \<le> 2 ^ k" by linarith
    then have "1 / 2 ^ k \<le> \<bar>x\<bar>"
      using x0 by (simp add: field_simps)
    moreover have "fexp x = - int k"
      using False by (simp add: fexp_def bitlen_floorlog k_def N_def)
    ultimately show ?thesis by (simp add: pow2_neg)
  qed
  show "\<bar>x\<bar> < pow2 (fexp x + 1)"
  proof (cases "1 \<le> \<bar>x\<bar>")
    case True
    define n where "n = nat \<lfloor>\<bar>x\<bar>\<rfloor>"
    have n1: "0 < n" using True by (simp add: n_def)
    have "n < 2 ^ floorlog 2 n"
      using floorlog_bounds [of n 2] n1 by simp
    then have "n + 1 \<le> 2 ^ floorlog 2 n" by simp
    then have "(of_nat (n + 1) :: rat) \<le> 2 ^ floorlog 2 n"
      by (metis of_nat_le_iff of_nat_numeral of_nat_power)
    moreover have "\<bar>x\<bar> < of_nat (n + 1)"
      using True unfolding n_def by (simp add: ) linarith
    ultimately have "\<bar>x\<bar> < 2 ^ floorlog 2 n" by linarith
    moreover have "0 < floorlog 2 n" using n1 by (simp add: floorlog_def)
    then have "fexp x + 1 = int (floorlog 2 n)"
      using True by (simp add: fexp_def bitlen_floorlog n_def)
    ultimately show ?thesis by (simp add: pow2_nat)
  next
    case False
    define N where "N = \<lceil>1 / \<bar>x\<bar>\<rceil>"
    define k where "k = floorlog 2 (nat (N - 1))"
    have x0: "0 < \<bar>x\<bar>" using assms by simp
    have "1 < 1 / \<bar>x\<bar>" using False x0 by simp
    then have N2: "2 \<le> N" unfolding N_def by linarith
    have k0: "0 < k" using N2 by (simp add: k_def floorlog_def)
    have "2 ^ (k - 1) \<le> nat (N - 1)"
      using floorlog_bounds [of "nat (N - 1)" 2] N2 by (simp add: k_def)
    then have "int (2 ^ (k - 1)) \<le> int (nat (N - 1))"
      by (simp only: of_nat_le_iff)
    then have "(2::int) ^ (k - 1) \<le> N - 1"
      using N2 by simp
    then have "(2::rat) ^ (k - 1) \<le> of_int (N - 1)"
      by (metis of_int_le_iff of_int_numeral of_int_power)
    moreover have "of_int (N - 1) < 1 / \<bar>x\<bar>" unfolding N_def by simp linarith
    ultimately have "2 ^ (k - 1) < 1 / \<bar>x\<bar>" by linarith
    then have "\<bar>x\<bar> < 1 / 2 ^ (k - 1)"
      using x0 by (simp add: field_simps)
    moreover have "fexp x + 1 = - int (k - 1)"
      using False k0 by (simp add: fexp_def bitlen_floorlog k_def N_def)
    ultimately show ?thesis by (simp add: pow2_neg)
  qed
qed

lemma pow2_mono: "a \<le> b \<Longrightarrow> pow2 a \<le> pow2 b"
proof -
  assume "a \<le> b"
  then obtain n where "b = a + int n"
    by (metis add_diff_cancel_left' diff_ge_0_iff_ge nonneg_int_cases add.commute
        diff_add_cancel)
  then have "pow2 b = pow2 a * 2 ^ n" by (simp add: pow2_add pow2_nat)
  moreover have "(1::rat) \<le> 2 ^ n" by simp
  ultimately show ?thesis
    using pow2_pos [of a] by (simp add: mult_le_cancel_left1)
qed

lemma toquantum_error:
  assumes "0 < u"
  shows "\<bar>toquantum u x - x\<bar> \<le> u / 2"
proof -
  have "toquantum u x - x = (of_int (rnd_even (x / u)) - x / u) * u"
    using assms by (simp add: toquantum_def algebra_simps)
  then have "\<bar>toquantum u x - x\<bar> = \<bar>of_int (rnd_even (x / u)) - x / u\<bar> * u"
    using assms by (simp add: abs_mult)
  also have "\<dots> \<le> (1 / 2) * u"
    using rnd_even_error [of "x / u"] assms by (intro mult_right_mono) simp_all
  finally show ?thesis by simp
qed

lemma fround_error: "\<bar>fround p x - x\<bar> \<le> \<bar>x\<bar> / 2 ^ p"
proof (cases "x = 0")
  case True
  then show ?thesis by (simp add: fround_def)
next
  case False
  let ?u = "pow2 (fexp x - int p + 1)"
  have "\<bar>fround p x - x\<bar> \<le> ?u / 2"
    using False toquantum_error [OF pow2_pos] by (simp add: fround_def)
  also have "?u / 2 = pow2 (fexp x) * pow2 (- int p)"
  proof -
    have "?u = pow2 (fexp x) * pow2 (- int p) * pow2 1"
      by (simp add: pow2_add [symmetric])
    then show ?thesis by (simp add: pow2_def)
  qed
  also have "\<dots> \<le> \<bar>x\<bar> * pow2 (- int p)"
    using fexp_bounds(1) [OF False] pow2_pos [of "- int p"]
    by (intro mult_right_mono) simp_all
  finally show ?thesis by (simp add: pow2_neg)
qed

lemma toquantum_int:
  "toquantum (1 / 2 ^ k) (of_int n) = of_int n"
proof -
  have "of_int n / (1 / 2 ^ k) = (of_int (n * 2 ^ k) :: rat)" by simp
  then have "rnd_even (of_int n / (1 / 2 ^ k)) = n * 2 ^ k"
    by (simp only: rnd_even_int)
  then show ?thesis by (simp add: toquantum_def)
qed

lemma fround_int:
  assumes "\<bar>n\<bar> < 2 ^ p"
  shows "fround p (of_int n) = of_int n"
proof (cases "n = 0")
  case True
  then show ?thesis by (simp add: fround_def)
next
  case False
  let ?x = "of_int n :: rat"
  have x0: "?x \<noteq> 0" using False by simp
  have "pow2 (fexp ?x) \<le> \<bar>?x\<bar>" by (rule fexp_bounds(1) [OF x0])
  moreover have "\<bar>?x\<bar> < 2 ^ p"
    using assms by (metis of_int_abs of_int_less_iff of_int_numeral of_int_power)
  ultimately have "pow2 (fexp ?x) < pow2 (int p)" by (simp add: pow2_nat)
  then have "fexp ?x < int p"
    using pow2_mono [of "int p" "fexp ?x"] by linarith
  then have "fexp ?x - int p + 1 \<le> 0" by simp
  then obtain k where k: "fexp ?x - int p + 1 = - int k"
    by (rule nonpos_int_cases)
  show ?thesis
    using x0 by (simp add: fround_def k pow2_neg toquantum_int)
qed

lemma div_near:
  fixes u v u' v' d :: rat
  assumes u: "\<bar>u' - u\<bar> \<le> d * \<bar>u\<bar>" and v: "\<bar>v' - v\<bar> \<le> d * \<bar>v\<bar>"
    and v0: "v \<noteq> 0" and d0: "0 \<le> d" and d1: "d \<le> 1 / 8"
  shows "v' \<noteq> 0" and "\<bar>u' / v' - u / v\<bar> \<le> 3 * d * \<bar>u / v\<bar>"
proof -
  have av: "0 < \<bar>v\<bar>" using v0 by simp
  have "\<bar>v\<bar> - \<bar>v' - v\<bar> \<le> \<bar>v'\<bar>" by linarith
  then have lb: "(1 - d) * \<bar>v\<bar> \<le> \<bar>v'\<bar>" using v by (simp add: algebra_simps)
  have "0 < (1 - d) * \<bar>v\<bar>" using av d1 by simp
  then have av': "0 < \<bar>v'\<bar>" using lb by linarith
  then show v'0: "v' \<noteq> 0" by auto
  have "u' * v - u * v' = (u' - u) * v - u * (v' - v)" by (simp add: algebra_simps)
  then have "\<bar>u' * v - u * v'\<bar> \<le> \<bar>u' - u\<bar> * \<bar>v\<bar> + \<bar>u\<bar> * \<bar>v' - v\<bar>"
    by (metis abs_mult abs_triangle_ineq4)
  also have "\<dots> \<le> (d * \<bar>u\<bar>) * \<bar>v\<bar> + \<bar>u\<bar> * (d * \<bar>v\<bar>)"
    using u v by (intro add_mono mult_right_mono mult_left_mono) simp_all
  finally have num: "\<bar>u' * v - u * v'\<bar> \<le> 2 * d * \<bar>u\<bar> * \<bar>v\<bar>" by (simp add: algebra_simps)
  have "u' / v' - u / v = (u' * v - u * v') / (v' * v)"
    using v0 v'0 by (simp add: field_simps)
  then have "\<bar>u' / v' - u / v\<bar> = \<bar>u' * v - u * v'\<bar> / (\<bar>v'\<bar> * \<bar>v\<bar>)"
    by (simp add: abs_mult)
  also have "\<dots> \<le> (2 * d * \<bar>u\<bar> * \<bar>v\<bar>) / (((1 - d) * \<bar>v\<bar>) * \<bar>v\<bar>)"
  proof (rule frac_le)
    show "0 \<le> 2 * d * \<bar>u\<bar> * \<bar>v\<bar>" using d0 by simp
    show "\<bar>u' * v - u * v'\<bar> \<le> 2 * d * \<bar>u\<bar> * \<bar>v\<bar>" by (rule num)
    show "0 < (1 - d) * \<bar>v\<bar> * \<bar>v\<bar>" using av d1 by simp
    show "(1 - d) * \<bar>v\<bar> * \<bar>v\<bar> \<le> \<bar>v'\<bar> * \<bar>v\<bar>"
      using lb av by (intro mult_right_mono) simp_all
  qed
  also have "\<dots> = (2 * d / (1 - d)) * \<bar>u / v\<bar>"
  proof -
    define a b where "a = \<bar>u\<bar>" and "b = \<bar>v\<bar>"
    have "0 < b" using av by (simp add: b_def)
    moreover have "1 - d \<noteq> 0" using d1 by simp
    ultimately have "(2 * d * a * b) / (((1 - d) * b) * b) = (2 * d / (1 - d)) * (a / b)"
      by (simp add: field_simps)
    then show ?thesis by (simp add: a_def b_def abs_divide)
  qed
  also have "\<dots> \<le> (3 * d) * \<bar>u / v\<bar>"
  proof (rule mult_right_mono)
    have "2 * d \<le> 3 * d * (1 - d)"
    proof -
      have "d * d \<le> d * (1 / 8)" using d0 d1 by (intro mult_left_mono) simp_all
      then show ?thesis using d0 by (simp add: algebra_simps)
    qed
    then show "2 * d / (1 - d) \<le> 3 * d" using d1 by (simp add: field_simps)
    show "0 \<le> \<bar>u / v\<bar>" by simp
  qed
  finally show "\<bar>u' / v' - u / v\<bar> \<le> 3 * d * \<bar>u / v\<bar>" .
qed

lemma f32_error: "\<bar>f32 x - x\<bar> \<le> (1 / 16777216) * \<bar>x\<bar>"
  using fround_error [of 24 x] by (simp add: f32_def)

lemma f64_error: "\<bar>f64 x - x\<bar> \<le> (1 / 9007199254740992) * \<bar>x\<bar>"
  using fround_error [of 53 x] by (simp add: f64_def)

lemma clampratio_near:
  assumes "M \<noteq> 0"
  shows "\<bar>the (clampratio W M) - min (95 / 100) (max (5 / 100) (of_int W / of_int M))\<bar>
           \<le> 1 / 2 ^ 21"
proof -
  define x :: rat where "x = of_int W / of_int M"
  define y where "y = f32 (of_int W) / f32 (of_int M)"
  define q where "q = f32 y"
  define c where "c = min (f64 (95 / 100)) (max (f64 (5 / 100)) q)"
  have M0: "(of_int M :: rat) \<noteq> 0" using assms by simp
  have yx: "\<bar>y - x\<bar> \<le> 3 * (1 / 16777216) * \<bar>x\<bar>"
    unfolding y_def x_def
    by (rule div_near(2) [OF f32_error f32_error M0]) simp_all
  have qy: "\<bar>q - y\<bar> \<le> (1 / 16777216) * \<bar>y\<bar>"
    unfolding q_def by (rule f32_error)
  have "\<bar>y\<bar> \<le> 2 * \<bar>x\<bar>" using yx by linarith
  then have qx: "\<bar>q - x\<bar> \<le> (5 / 16777216) * \<bar>x\<bar>"
    using yx qy by linarith
  have d95: "\<bar>f64 (95 / 100) - 95 / 100\<bar> \<le> 1 / 9007199254740992"
    using f64_error [of "95 / 100"] by simp
  have d05: "\<bar>f64 (5 / 100) - 5 / 100\<bar> \<le> 1 / 9007199254740992"
    using f64_error [of "5 / 100"] by simp
  have cb: "0 \<le> c" "c \<le> 1" using d95 d05 unfolding c_def by linarith+
  define cx where "cx = min (95 / 100) (max (5 / 100) x)"
  have "\<bar>c - min (95 / 100) (max (5 / 100) x)\<bar> \<le> 5 / 16777216"
  proof -
    consider "\<bar>x\<bar> \<le> 1" | "1 < x" | "x < - 1" by linarith
    then show ?thesis
    proof cases
      case 1
      then have "(5 / 16777216) * \<bar>x\<bar> \<le> (5 / 16777216) * 1"
        by (intro mult_left_mono) simp_all
      then have "\<bar>q - x\<bar> \<le> 5 / 16777216" using qx by linarith
      then show ?thesis using d95 d05 unfolding c_def by linarith
    next
      case 2
      then have "\<bar>x\<bar> = x" by simp
      then have "x - (5 / 16777216) * x \<le> q" using qx by linarith
      moreover have "(1 - 5 / 16777216) * 1 < (1 - 5 / 16777216) * x"
        using 2 by (intro mult_strict_left_mono) simp_all
      ultimately have "96 / 100 < q" by (simp add: algebra_simps)
      then show ?thesis using d95 d05 2 unfolding c_def by linarith
    next
      case 3
      then have "\<bar>x\<bar> = - x" by simp
      then have "q \<le> x - (5 / 16777216) * x" using qx by linarith
      moreover have "(1 - 5 / 16777216) * x < (1 - 5 / 16777216) * (- 1)"
        using 3 by (intro mult_strict_left_mono) simp_all
      ultimately have "q < 0" by (simp add: algebra_simps)
      then show ?thesis using d95 d05 3 unfolding c_def by linarith
    qed
  qed
  then have "\<bar>c - cx\<bar> \<le> 5 / 16777216"
    by (simp only: cx_def)
  moreover have "\<bar>f32 c - c\<bar> \<le> 1 / 16777216"
  proof -
    have "(1 / 16777216) * \<bar>c\<bar> \<le> (1 / 16777216) * 1"
      using cb by (intro mult_left_mono) simp_all
    then show ?thesis using f32_error [of c] by linarith
  qed
  ultimately have "\<bar>f32 c - cx\<bar> \<le> 1 / 2097152"
    by linarith
  then have "\<bar>f32 c - min (95 / 100) (max (5 / 100) x)\<bar> \<le> 1 / 2 ^ 21"
    by (simp add: cx_def)
  moreover have "the (clampratio W M) = f32 c"
    using assms by (simp add: clampratio_def c_def q_def y_def)
  ultimately show ?thesis unfolding x_def [symmetric] by simp
qed

lemma f32_int: "\<bar>n\<bar> < 16777216 \<Longrightarrow> f32 (of_int n) = of_int n"
  using fround_int [of n 24] by (simp add: f32_def)

text \<open>For evaluation: an integer below \<open>2^24\<close> is a float already.\<close>

lemma f32_code [code]:
  "f32 x = (if of_int \<lfloor>x\<rfloor> = x \<and> \<bar>x\<bar> < 16777216 then x else fround 24 x)"
proof (cases "of_int \<lfloor>x\<rfloor> = x \<and> \<bar>x\<bar> < 16777216")
  case True
  then have "\<bar>\<lfloor>x\<rfloor>\<bar> < 16777216"
    by (metis of_int_abs of_int_less_iff of_int_numeral)
  then have "f32 (of_int \<lfloor>x\<rfloor>) = of_int \<lfloor>x\<rfloor>" by (rule f32_int)
  then show ?thesis using True by simp
next
  case False
  then show ?thesis by (simp only: f32_def if_False)
qed

section \<open>Facts about stacking and focus\<close>

declare restack.simps [simp del] focus.simps [simp del]

lemma publish_fields [simp]:
  "store (publish s) = store s" "clients (publish s) = clients s"
  "pinned (publish s) = pinned s" "raised (publish s) = raised s"
  "sel (publish s) = sel s" "tagset (publish s) = tagset s"
  "tagslen (publish s) = tagslen s" "barfocus (publish s) = barfocus s"
  "ctrlmode (publish s) = ctrlmode s" "mons (publish s) = mons s"
  "mfact (publish s) = mfact s" "nmain (publish s) = nmain s"
  "snap (publish s) = snap s" "sw (publish s) = sw s" "sh (publish s) = sh s"
  "ptrgrab (publish s) = ptrgrab s"
  by (simp_all add: publish_def Let_def)

lemma liftpinned_fields [simp]:
  "store (liftpinned s) = store s"
  "pinned (liftpinned s) = pinned s" "raised (liftpinned s) = raised s"
  "sel (liftpinned s) = sel s" "tagset (liftpinned s) = tagset s"
  "tagslen (liftpinned s) = tagslen s" "barfocus (liftpinned s) = barfocus s"
  "ctrlmode (liftpinned s) = ctrlmode s" "mons (liftpinned s) = mons s"
  "mfact (liftpinned s) = mfact s" "nmain (liftpinned s) = nmain s"
  "snap (liftpinned s) = snap s" "sw (liftpinned s) = sw s" "sh (liftpinned s) = sh s"
  "ptrgrab (liftpinned s) = ptrgrab s" "netclistack (liftpinned s) = netclistack s"
  by (simp_all add: liftpinned_def attach_def detach_def split: option.splits)

lemma restack_CliNone: "restack c CliNone s = publish (liftpinned s)"
  by (simp add: restack.simps)

lemma focus_unfold:
  "focus c s = publish (liftpinned (s\<lparr>sel :=
      (if (case c of None \<Rightarrow> True | Some k \<Rightarrow> \<not> ISVISIBLE s (store s k))
          \<and> (case sel s of None \<Rightarrow> True | Some k \<Rightarrow> \<not> ISVISIBLE s (store s k))
       then find (\<lambda>k. ISVISIBLE s (store s k)) (clients s)
       else if (case c of None \<Rightarrow> True | Some k \<Rightarrow> \<not> ISVISIBLE s (store s k)) then sel s
       else c)\<rparr>))"
  by (simp add: focus.simps restack_CliNone Let_def)

lemma focus_fields [simp]:
  "store (focus c s) = store s"
  "pinned (focus c s) = pinned s" "raised (focus c s) = raised s"
  "tagset (focus c s) = tagset s"
  "tagslen (focus c s) = tagslen s" "barfocus (focus c s) = barfocus s"
  "ctrlmode (focus c s) = ctrlmode s" "mons (focus c s) = mons s"
  "mfact (focus c s) = mfact s" "nmain (focus c s) = nmain s"
  "snap (focus c s) = snap s" "sw (focus c s) = sw s" "sh (focus c s) = sh s"
  "ptrgrab (focus c s) = ptrgrab s"
  by (simp_all add: focus_unfold)

lemma restack_unfold:
  "restack c mode s =
    (if (mode = BarHide \<or> mode = BarShow) \<and> barfocus s = (mode = BarShow) then s
     else publish (liftpinned
         (case mode of
            CliPin \<Rightarrow> s\<lparr>pinned := (if pinned s \<noteq> c then c else None)\<rparr>
          | CliRemove \<Rightarrow>
              (let sd = (case c of None \<Rightarrow> s | Some k \<Rightarrow> detach k s)
               in sd\<lparr>pinned := (if pinned sd \<noteq> c then pinned sd else None),
                     raised := (if raised sd \<noteq> c then raised sd else None),
                     sel := (if sel sd \<noteq> c then sel sd else None)\<rparr>)
          | BarHide \<Rightarrow> focus (sel s) (s\<lparr>barfocus := False\<rparr>)
          | BarShow \<Rightarrow> focus (sel s) (s\<lparr>barfocus := True\<rparr>)
          | CliZoom \<Rightarrow>
              (case c of None \<Rightarrow> s | Some k \<Rightarrow> attach k (detach k s))\<lparr>raised := c\<rparr>
          | CliRaise \<Rightarrow> s\<lparr>raised := c\<rparr>
          | CliNone \<Rightarrow> s)))"
  by (simp add: restack.simps Let_def)

lemma restack_store [simp]: "store (restack c mode s) = store s"
  by (cases mode) (simp_all add: restack_unfold detach_def attach_def Let_def split: option.splits)

lemma restack_misc [simp]:
  "tagset (restack c mode s) = tagset s" "tagslen (restack c mode s) = tagslen s"
  "ctrlmode (restack c mode s) = ctrlmode s" "mons (restack c mode s) = mons s"
  "mfact (restack c mode s) = mfact s" "nmain (restack c mode s) = nmain s"
  "snap (restack c mode s) = snap s" "sw (restack c mode s) = sw s" "sh (restack c mode s) = sh s"
  "ptrgrab (restack c mode s) = ptrgrab s"
  by (cases mode; simp add: restack_unfold detach_def attach_def Let_def split: option.splits)+

section \<open>Facts about resizing and tiling\<close>

lemma resize_frame: "(resize c x y w h s)\<lparr>store := store s\<rparr> = s"
  by (simp add: resize_def Let_def)

lemma resize_fields [simp]:
  "clients (resize c x y w h s) = clients s"
  "pinned (resize c x y w h s) = pinned s" "raised (resize c x y w h s) = raised s"
  "sel (resize c x y w h s) = sel s" "tagset (resize c x y w h s) = tagset s"
  "tagslen (resize c x y w h s) = tagslen s" "barfocus (resize c x y w h s) = barfocus s"
  "ctrlmode (resize c x y w h s) = ctrlmode s" "mons (resize c x y w h s) = mons s"
  "mfact (resize c x y w h s) = mfact s" "nmain (resize c x y w h s) = nmain s"
  "snap (resize c x y w h s) = snap s" "sw (resize c x y w h s) = sw s"
  "sh (resize c x y w h s) = sh s" "ptrgrab (resize c x y w h s) = ptrgrab s"
  "netclistack (resize c x y w h s) = netclistack s"
  by (simp_all add: resize_def Let_def)

lemma resize_other [simp]: "k \<noteq> c \<Longrightarrow> store (resize c x y w h s) k = store s k"
  by (simp add: resize_def Let_def)

lemma resize_meta [simp]:
  "tags (store (resize c x y w h s) k) = tags (store s k)"
  "isfloating (store (resize c x y w h s) k) = isfloating (store s k)"
  "isfullscreen (store (resize c x y w h s) k) = isfullscreen (store s k)"
  "fstate (store (resize c x y w h s) k) = fstate (store s k)"
  "bw (store (resize c x y w h s) k) = bw (store s k)"
  "fbw (store (resize c x y w h s) k) = fbw (store s k)"
  "win (store (resize c x y w h s) k) = win (store s k)"
  "basew (store (resize c x y w h s) k) = basew (store s k)"
  "baseh (store (resize c x y w h s) k) = baseh (store s k)"
  "minw (store (resize c x y w h s) k) = minw (store s k)"
  "minh (store (resize c x y w h s) k) = minh (store s k)"
  "maxw (store (resize c x y w h s) k) = maxw (store s k)"
  "maxh (store (resize c x y w h s) k) = maxh (store s k)"
  "mina (store (resize c x y w h s) k) = mina (store s k)"
  "maxa (store (resize c x y w h s) k) = maxa (store s k)"
  by (simp_all add: resize_def Let_def)

lemma ISVISIBLE_cong: "tags c' = tags c \<Longrightarrow> tagset s' = tagset s \<Longrightarrow> ISVISIBLE s' c' = ISVISIBLE s c"
  by (simp add: ISVISIBLE_def)

lemma tilestep_cases:
  "snd (tilestep nm c (cnt, s)) = s
   \<or> (\<not> isfloating (store s c) \<and> ISVISIBLE s (store s c)
      \<and> (\<exists>x y w h. snd (tilestep nm c (cnt, s)) = resize c x y w h s))"
  by (cases cnt) (auto simp: tilestep_def Let_def)

lemma tileloop_resize_induct:
  assumes step: "\<And>c x y w h s. P s \<Longrightarrow> P (resize c x y w h s)"
    and init: "P s"
  shows "P (snd (tileloop nm cs (cnt, s)))"
  using init
proof (induction cs arbitrary: cnt s)
  case Nil
  then show ?case by simp
next
  case (Cons c cs)
  obtain cnt' s' where ts: "tilestep nm c (cnt, s) = (cnt', s')"
    by (cases "tilestep nm c (cnt, s)")
  have "P s'"
    using tilestep_cases [of nm c cnt s] ts Cons.prems step by auto
  then show ?case
    using Cons.IH [of s' cnt'] ts by simp
qed

lemma tileloop_fields [simp]:
  "clients (snd (tileloop nm cs (cnt, s))) = clients s"
  "pinned (snd (tileloop nm cs (cnt, s))) = pinned s"
  "raised (snd (tileloop nm cs (cnt, s))) = raised s"
  "sel (snd (tileloop nm cs (cnt, s))) = sel s"
  "tagset (snd (tileloop nm cs (cnt, s))) = tagset s"
  "tagslen (snd (tileloop nm cs (cnt, s))) = tagslen s"
  "barfocus (snd (tileloop nm cs (cnt, s))) = barfocus s"
  "ctrlmode (snd (tileloop nm cs (cnt, s))) = ctrlmode s"
  "mons (snd (tileloop nm cs (cnt, s))) = mons s"
  "mfact (snd (tileloop nm cs (cnt, s))) = mfact s"
  "nmain (snd (tileloop nm cs (cnt, s))) = nmain s"
  "snap (snd (tileloop nm cs (cnt, s))) = snap s"
  "sw (snd (tileloop nm cs (cnt, s))) = sw s"
  "sh (snd (tileloop nm cs (cnt, s))) = sh s"
  "ptrgrab (snd (tileloop nm cs (cnt, s))) = ptrgrab s"
  "netclistack (snd (tileloop nm cs (cnt, s))) = netclistack s"
  by (rule tileloop_resize_induct; simp)+

lemma tileloop_meta [simp]:
  "tags (store (snd (tileloop nm cs (cnt, s))) k) = tags (store s k)"
  "isfloating (store (snd (tileloop nm cs (cnt, s))) k) = isfloating (store s k)"
  "isfullscreen (store (snd (tileloop nm cs (cnt, s))) k) = isfullscreen (store s k)"
  "fstate (store (snd (tileloop nm cs (cnt, s))) k) = fstate (store s k)"
  "bw (store (snd (tileloop nm cs (cnt, s))) k) = bw (store s k)"
  "fbw (store (snd (tileloop nm cs (cnt, s))) k) = fbw (store s k)"
  "win (store (snd (tileloop nm cs (cnt, s))) k) = win (store s k)"
  by (rule tileloop_resize_induct; simp)+

lemma arrange_store:
  "store (arrange s) =
     store (snd (tileloop (counttiled (focus None s) (clients (focus None s)) (\<lambda>_. 0))
       (clients (focus None s)) (((\<lambda>_. 0), (\<lambda>_. 0), (\<lambda>_. 0)), focus None s)))"
  by (simp add: arrange_def Let_def)

lemma arrange_meta [simp]:
  "tags (store (arrange s) k) = tags (store s k)"
  "isfloating (store (arrange s) k) = isfloating (store s k)"
  "isfullscreen (store (arrange s) k) = isfullscreen (store s k)"
  "fstate (store (arrange s) k) = fstate (store s k)"
  "bw (store (arrange s) k) = bw (store s k)"
  "fbw (store (arrange s) k) = fbw (store s k)"
  "win (store (arrange s) k) = win (store s k)"
  by (simp_all add: arrange_store)

lemma arrange_fields [simp]:
  "tagset (arrange s) = tagset s" "tagslen (arrange s) = tagslen s"
  "ctrlmode (arrange s) = ctrlmode s" "mons (arrange s) = mons s"
  "mfact (arrange s) = mfact s" "nmain (arrange s) = nmain s"
  "snap (arrange s) = snap s" "sw (arrange s) = sw s" "sh (arrange s) = sh s"
  "ptrgrab (arrange s) = ptrgrab s" "barfocus (arrange s) = barfocus s"
  by (simp_all add: arrange_def Let_def restack_unfold)

section \<open>Claims\<close>

text \<open>
  Claim C10. After \<^verbatim>\<open>restack(c, CliRemove)\<close> the selected-client reference does
  not point to \<open>c\<close>: the removal clears \<^verbatim>\<open>sel\<close> as well as \<^verbatim>\<open>pinned\<close> and
  \<^verbatim>\<open>raised\<close>.
\<close>

theorem restack_remove_clears:
  "sel (restack (Some c) CliRemove s) \<noteq> Some c
   \<and> pinned (restack (Some c) CliRemove s) \<noteq> Some c
   \<and> raised (restack (Some c) CliRemove s) \<noteq> Some c"
  by (simp add: restack_unfold Let_def detach_def)

text \<open>
  Claim C4. For a selected client and any workspace mask, \<^verbatim>\<open>toggletag\<close> never
  leaves the client with an empty tags mask: a toggle whose result would be zero
  is a no-op that changes nothing, and any other toggle stores the nonzero
  result.
\<close>

theorem toggletag_nonzero:
  assumes "sel s = Some k"
  shows "(tags (store s k) XOR (m AND TAGMASK s) = 0 \<longrightarrow> toggletag m s = s)
       \<and> (tags (store s k) XOR (m AND TAGMASK s) \<noteq> 0 \<longrightarrow>
            tags (store (toggletag m s) k) = tags (store s k) XOR (m AND TAGMASK s))
       \<and> (tags (store (toggletag m s) k) = 0 \<longrightarrow> toggletag m s = s)"
  using assms by (simp add: toggletag_def)

theorem toggletag_nonzero_witness:
  "sel stack3 = Some 2
   \<and> tags (store (toggletag 2 stack3) 2) = 3
   \<and> toggletag 1 stack3 = stack3"
  using toggletag_nonzero [of stack3 2 2] toggletag_nonzero [of stack3 2 1]
  by (simp add: stack3_def wm0_def tiledclient_def client0_def TAGMASK_def)

text \<open>
  Claim C9. \<^verbatim>\<open>grabresize\<close> with \<^verbatim>\<open>DragMove\<close> is a silent no-op when no client
  is selected, or the selected client is fullscreen, or it is not floating: the
  whole state, drag mode and pointer grab included, stays as it was.
\<close>

theorem grabresize_move_noop:
  assumes "sel s = None
         \<or> (\<exists>k. sel s = Some k \<and> (isfullscreen (store s k) \<or> \<not> isfloating (store s k)))"
  shows "grabresize DragMove s = s"
  using assms by (auto simp: grabresize_def)

theorem grabresize_move_noop_witness:
  "sel (stack3\<lparr>sel := Some 3\<rparr>) = Some 3
   \<and> \<not> isfloating (store (stack3\<lparr>sel := Some 3\<rparr>) 3)
   \<and> grabresize DragMove (stack3\<lparr>sel := Some 3\<rparr>) = stack3\<lparr>sel := Some 3\<rparr>"
  using grabresize_move_noop [of "stack3\<lparr>sel := Some 3\<rparr>"]
  by (simp add: stack3_def wm0_def tiledclient_def client0_def)

section \<open>Further facts\<close>

lemma focus_sel: "sel (focus c s) = focus_choice c s"
  by (cases c; cases "sel s"; simp add: focus_unfold focus_choice_def visref_def)

lemma focus_choice_visible: "focus_choice c s = Some k \<Longrightarrow> ISVISIBLE s (store s k)"
  by (auto simp: focus_choice_def visref_def find_Some_iff split: if_splits option.splits)

lemma stacklayer_eq:
  "stacklayer s l cs ws = rev (map (\<lambda>c. win (store s c)) (filter (inlayer s l) cs)) @ ws"
  by (induction cs arbitrary: ws) (simp_all add: inlayer_def)

lemma layer_flags:
  "layer c = 0 \<longleftrightarrow> floatlayer c"
  "layer c = Suc 0 \<longleftrightarrow> tiledlayer c"
  "(isfullscreen c \<longrightarrow> isfloating c) \<Longrightarrow> layer c = 2 \<longleftrightarrow> fulllayer c"
  by (auto simp: layer_def floatlayer_def tiledlayer_def fulllayer_def)

lemma inlayer_float: "filter (inlayer s 0) (clients s) = sublayer s floatlayer"
  unfolding sublayer_def by (rule filter_cong) (simp_all add: inlayer_def layer_flags)

lemma inlayer_tiled: "filter (inlayer s (Suc 0)) (clients s) = sublayer s tiledlayer"
  unfolding sublayer_def by (rule filter_cong) (simp_all add: inlayer_def layer_flags)

lemma inlayer_full:
  "fullfloat s \<Longrightarrow> filter (inlayer s 2) (clients s) = sublayer s fulllayer"
  unfolding sublayer_def
  by (rule filter_cong) (simp_all add: inlayer_def layer_flags fullfloat_def)

lemma publish_netclistack:
  assumes "fullfloat s" and "pinnedapart s"
  shows "netclistack (publish s) = rev (stackorder s)"
  using assms
  by (auto simp: publish_def Let_def stacklayer_eq stackorder_def optlist_def
      inlayer_float inlayer_tiled inlayer_full pinnedapart_def split: option.splits)

lemma stackorder_cong:
  "store t = store s \<Longrightarrow> clients t = clients s \<Longrightarrow> pinned t = pinned s
   \<Longrightarrow> raised t = raised s \<Longrightarrow> stackorder t = stackorder s"
  by (simp add: stackorder_def sublayer_def)

lemma publish_wf:
  "fullfloat (publish s) = fullfloat s" "pinnedapart (publish s) = pinnedapart s"
  by (simp_all add: fullfloat_def pinnedapart_def)

lemma stack7_eval:
  "fullfloat (restack (Some 2) CliRaise stack7)
   \<and> pinnedapart (restack (Some 2) CliRaise stack7)
   \<and> clients (restack (Some 2) CliRaise stack7) = [1, 7, 6, 5, 4, 3, 2]
   \<and> stackorder (restack (Some 2) CliRaise stack7) = [101, 102, 107, 104, 106, 103, 105]"
  by code_simp

lemma sdiv_max1:
  fixes a b :: int
  assumes "b \<noteq> 0"
  shows "max 1 (a sdiv b) = max 1 (a div b)"
proof -
  consider "a \<ge> 0 \<and> b > 0" | "a < 0 \<and> b < 0" | "a \<ge> 0 \<and> b < 0" | "a < 0 \<and> b > 0"
    using assms by linarith
  then show ?thesis
  proof cases
    case 1
    then show ?thesis by (simp add: signed_divide_int_def sgn_if)
  next
    case 2
    then have "\<bar>a\<bar> div \<bar>b\<bar> = a div b"
      by (simp add: abs_if)
    with 2 show ?thesis by (simp add: signed_divide_int_def sgn_if)
  next
    case 3
    then have "a div b \<le> 0" by (simp add: div_nonneg_neg_le0)
    moreover from 3 have "a sdiv b \<le> 0"
      by (simp add: signed_divide_int_def sgn_if pos_imp_zdiv_nonneg_iff)
    ultimately show ?thesis by simp
  next
    case 4
    then have "a div b \<le> 0" by (simp add: div_neg_pos_less0 less_imp_le)
    moreover from 4 have "a sdiv b \<le> 0"
      by (simp add: signed_divide_int_def sgn_if pos_imp_zdiv_nonneg_iff)
    ultimately show ?thesis by simp
  qed
qed

lemma monfirst_less: "ms \<noteq> [] \<Longrightarrow> monfirst ms X Y < length ms"
  by (induction ms X Y rule: monfirst.induct) simp_all

lemma monfirst_holds:
  "j < length ms \<Longrightarrow> INMON X Y (ms ! j) \<Longrightarrow> INMON X Y (ms ! monfirst ms X Y)"
proof (induction ms X Y arbitrary: j rule: monfirst.induct)
  case (1 X Y)
  then show ?case by simp
next
  case (2 M X Y)
  then show ?case by simp
next
  case (3 M N Ms X Y)
  show ?case
  proof (cases "INMON X Y M")
    case True
    then show ?thesis by simp
  next
    case False
    with 3 obtain j' where "j = Suc j'" by (cases j) auto
    with 3 False show ?thesis by auto
  qed
qed

lemma tiled3_rects:
  "map (\<lambda>k. rect (store (arrange tiled3) k)) [1, 2, 3] =
     [(1152, 540, 768, 540), (1152, 0, 768, 540), (0, 0, 1152, 1080)]"
  by code_simp

section \<open>Claims on focus, stacking and resizing\<close>

text \<open>
  Claim C6. \<^verbatim>\<open>focus(c)\<close> selects \<open>c\<close> when it is given and visible under the
  current workspace selection; otherwise it keeps the previous selection if that
  is visible, else takes the first visible client in registry order, else
  selects nothing. The client selected afterwards, if any, is visible.
\<close>

theorem focus_selects:
  "sel (focus c s) = focus_choice c s
   \<and> (\<forall>k. sel (focus c s) = Some k \<longrightarrow> ISVISIBLE (focus c s) (store (focus c s) k))"
  using focus_choice_visible [of c s]
  by (simp add: focus_sel ISVISIBLE_def)

theorem focus_selects_witness:
  "sel (focus (Some 3) stack3) = Some 3
   \<and> ISVISIBLE (focus (Some 3) stack3) (store (focus (Some 3) stack3) 3)
   \<and> sel (focus None stack3) = Some 2
   \<and> sel (focus None (stack3\<lparr>sel := None\<rparr>)) = Some 3
   \<and> sel (focus (Some 1) (stack3\<lparr>tagset := 2\<rparr>)) = None"
  using focus_selects [of "Some 3" stack3] focus_selects [of None stack3]
    focus_selects [of None "stack3\<lparr>sel := None\<rparr>"]
    focus_selects [of "Some 1" "stack3\<lparr>tagset := 2\<rparr>"]
  by (simp add: focus_choice_def visref_def ISVISIBLE_def stack3_def wm0_def
      tiledclient_def client0_def)

text \<open>
  Claim C1, as amended. After every stacking recompute (every \<^verbatim>\<open>restack\<close> that
  does not return early for a bar mode that is already set) that leaves the
  pinned and the raised reference on different clients, the published property
  holds the layer order bottom-most first: it is the reverse of \<open>stackorder\<close>,
  so the pinned client is its last entry, the raised client the one before,
  and before them come the other floating clients, before those the tiled
  clients, and first the other fullscreen clients, each sub-layer in registry
  order read backwards. Every fullscreen client carries the floating flag
  (\<open>fullfloat\<close>): \<^verbatim>\<open>setfullscreen\<close> sets the flag, and \<^verbatim>\<open>togglefloating\<close> leaves
  fullscreen before it toggles.
\<close>

theorem restack_publishes:
  assumes "\<not> ((mode = BarHide \<or> mode = BarShow) \<and> barfocus s = (mode = BarShow))"
    and "fullfloat (restack c mode s)" and "pinnedapart (restack c mode s)"
  shows "netclistack (restack c mode s) = rev (stackorder (restack c mode s))"
proof -
  from assms(1) obtain t where r: "restack c mode s = publish t"
    by (auto simp: restack_unfold)
  have "stackorder (publish t) = stackorder t"
    by (rule stackorder_cong) simp_all
  then show ?thesis
    using assms(2,3) by (simp add: r publish_netclistack publish_wf)
qed

theorem restack_publishes_witness:
  "fullfloat (restack (Some 2) CliRaise stack7)
   \<and> pinnedapart (restack (Some 2) CliRaise stack7)
   \<and> stackorder (restack (Some 2) CliRaise stack7) = [101, 102, 107, 104, 106, 103, 105]
   \<and> netclistack (restack (Some 2) CliRaise stack7) = [105, 103, 106, 104, 107, 102, 101]"
  using restack_publishes [of CliRaise stack7 "Some 2"] stack7_eval by simp

text \<open>
  The claim C1 as stated, with the topmost client first, fails: with the client
  of window 101 pinned and the one of window 102 raised above a tiled window
  103, the property is 103, 102, 101.
\<close>

theorem restack_topmost_first_counterexample:
  "pinned (restack (Some 2) CliRaise stack3) = Some 1
   \<and> win (store (restack (Some 2) CliRaise stack3) 1) = 101
   \<and> stackorder (restack (Some 2) CliRaise stack3) = [101, 102, 103]
   \<and> netclistack (restack (Some 2) CliRaise stack3) = [103, 102, 101]
   \<and> netclistack (restack (Some 2) CliRaise stack3)
       \<noteq> stackorder (restack (Some 2) CliRaise stack3)"
  by code_simp

text \<open>
  Claim C8, as amended. When a fullscreen client is resized, the maximum size
  hints (and the aspect and base size hints) do not bound the result, but the
  minimum size hints still do: the resulting width is the larger of the candidate
  width (at least 1) and \<^verbatim>\<open>minw\<close>, and likewise for the height.
\<close>

theorem resize_fullscreen_hints:
  assumes "isfullscreen (store s c)"
  shows "cw (store (resize c x y w h s) c) = max (max 1 w) (minw (store s c))
       \<and> ch (store (resize c x y w h s) c) = max (max 1 h) (minh (store s c))"
  using assms by (simp add: resize_def sizelimit_def aspectlimit_def Let_def)

theorem resize_fullscreen_hints_witness:
  "isfullscreen (store fullhint 1)
   \<and> cw (store (resize 1 0 0 1920 1080 fullhint) 1) = 3000
   \<and> ch (store (resize 1 0 0 1920 1080 fullhint) 1) = 1080"
  using resize_fullscreen_hints [of fullhint 1 0 0 1920 1080]
  by (simp add: fullhint_def wm0_def tiledclient_def client0_def)

text \<open>
  The claim C8 as stated fails for the minimum hints: a fullscreen client with
  \<^verbatim>\<open>minw\<close> 3000 that is resized to a width of 1920 gets the width 3000.
\<close>

theorem resize_fullscreen_min_counterexample:
  "isfullscreen (store fullhint 1) \<and> minw (store fullhint 1) = 3000
   \<and> cw (store (resize 1 0 0 1920 1080 fullhint) 1) \<noteq> 1920"
  by (simp add: resize_def sizelimit_def aspectlimit_def Let_def
      fullhint_def wm0_def tiledclient_def client0_def)

section \<open>Claims on tiling\<close>

text \<open>
  Claim C5, as amended. On a 1920x1080 monitor with \<^verbatim>\<open>nmain\<close> 1 and \<^verbatim>\<open>mfact\<close>
  0.6, after three tiled clients are attached in the order A, B, C, the registry
  is C, B, A (\<^verbatim>\<open>attach\<close> inserts at the head) and the layout gives C the
  rectangle (0, 0, 1152, 1080), B (1152, 0, 768, 540) and A (1152, 540, 768, 540).
\<close>

theorem arrange_three_tiled:
  "clients tiled3 = [3, 2, 1]
   \<and> rect (store (arrange tiled3) 3) = (0, 0, 1152, 1080)
   \<and> rect (store (arrange tiled3) 2) = (1152, 0, 768, 540)
   \<and> rect (store (arrange tiled3) 1) = (1152, 540, 768, 540)"
  using tiled3_rects by (simp add: tiled3_def attach_def wm0_def)

text \<open>
  The claim C5 as stated fails: A, the first client attached, does not get the
  main rectangle (0, 0, 1152, 1080), nor does C get (1152, 540, 768, 540).
\<close>

theorem arrange_three_tiled_counterexample:
  "rect (store (arrange tiled3) 1) \<noteq> (0, 0, 1152, 1080)
   \<and> rect (store (arrange tiled3) 3) \<noteq> (1152, 540, 768, 540)"
  using tiled3_rects by simp

section \<open>The tiling loop, monitor by monitor\<close>


lemma tileloop_untouched:
  "c \<notin> set cs \<Longrightarrow> store (snd (tileloop nm cs (cnt, s))) c = store s c"
proof (induction cs arbitrary: cnt s)
  case Nil
  then show ?case by simp
next
  case (Cons a cs)
  obtain cnt' s' where ts: "tilestep nm a (cnt, s) = (cnt', s')"
    by (cases "tilestep nm a (cnt, s)")
  have "store s' c = store s c"
    using tilestep_cases [of nm a cnt s] ts Cons.prems by auto
  then show ?case
    using Cons.IH [of cnt' s'] Cons.prems ts by simp
qed

lemma tilestep_skip:
  "\<not> (\<not> isfloating (store s c) \<and> ISVISIBLE s (store s c)) \<Longrightarrow> tilestep nm c (cnt, s) = (cnt, s)"
  by (cases cnt) (auto simp: tilestep_def)

lemma tilestep_main_eq:
  assumes "ontile s m c" and "i m < nmain s ! m"
  shows "tilestep nm c ((i, ym, yt), s) =
     ((i(m := i m + 1),
       (if ym m + HEIGHT (store (resize c (mx (mons s ! m)) (my (mons s ! m) + ym m)
                   (colwidth nm s m - 2 * bw (store s c))
                   ((mh (mons s ! m) - ym m) sdiv (min (nm m) (nmain s ! m) - i m)
                     - 2 * bw (store s c)) s) c) < mh (mons s ! m)
        then ym(m := ym m + HEIGHT (store (resize c (mx (mons s ! m)) (my (mons s ! m) + ym m)
                   (colwidth nm s m - 2 * bw (store s c))
                   ((mh (mons s ! m) - ym m) sdiv (min (nm m) (nmain s ! m) - i m)
                     - 2 * bw (store s c)) s) c)) else ym),
       yt),
      resize c (mx (mons s ! m)) (my (mons s ! m) + ym m)
                   (colwidth nm s m - 2 * bw (store s c))
        ((mh (mons s ! m) - ym m) sdiv (min (nm m) (nmain s ! m) - i m)
          - 2 * bw (store s c)) s)"
  using assms unfolding tilestep_def ontile_def Let_def by simp

lemma tilestep_main:
  assumes "ontile s m c" and "i m < nmain s ! m"
  shows "\<exists>x y w. tilestep nm c ((i, ym, yt), s) =
     ((i(m := i m + 1),
       (if ym m + HEIGHT (store (resize c x y w
                   ((mh (mons s ! m) - ym m) sdiv (min (nm m) (nmain s ! m) - i m)
                     - 2 * bw (store s c)) s) c) < mh (mons s ! m)
        then ym(m := ym m + HEIGHT (store (resize c x y w
                   ((mh (mons s ! m) - ym m) sdiv (min (nm m) (nmain s ! m) - i m)
                     - 2 * bw (store s c)) s) c)) else ym),
       yt),
      resize c x y w
        ((mh (mons s ! m) - ym m) sdiv (min (nm m) (nmain s ! m) - i m)
          - 2 * bw (store s c)) s)"
  using tilestep_main_eq [of s m c i nm ym yt] assms by blast

lemma tilestep_second:
  assumes "ontile s m c" and "\<not> i m < nmain s ! m"
  shows "\<exists>x y w. tilestep nm c ((i, ym, yt), s) =
     ((i(m := i m + 1), ym,
       (if yt m + HEIGHT (store (resize c x y w
                   ((mh (mons s ! m) - yt m) sdiv (nm m - i m) - 2 * bw (store s c)) s) c)
             < mh (mons s ! m)
        then yt(m := yt m + HEIGHT (store (resize c x y w
                   ((mh (mons s ! m) - yt m) sdiv (nm m - i m) - 2 * bw (store s c)) s) c))
        else yt)),
      resize c x y w
        ((mh (mons s ! m) - yt m) sdiv (nm m - i m) - 2 * bw (store s c)) s)"
proof -
  have "tilestep nm c ((i, ym, yt), s) =
     ((i(m := i m + 1), ym,
       (if yt m + HEIGHT (store (resize c
                   (mx (mons s ! m) + colwidth nm s m)
                   (my (mons s ! m) + yt m)
                   (mw (mons s ! m) - colwidth nm s m
                     - 2 * bw (store s c))
                   ((mh (mons s ! m) - yt m) sdiv (nm m - i m) - 2 * bw (store s c)) s) c)
             < mh (mons s ! m)
        then yt(m := yt m + HEIGHT (store (resize c
                   (mx (mons s ! m) + colwidth nm s m)
                   (my (mons s ! m) + yt m)
                   (mw (mons s ! m) - colwidth nm s m
                     - 2 * bw (store s c))
                   ((mh (mons s ! m) - yt m) sdiv (nm m - i m) - 2 * bw (store s c)) s) c))
        else yt)),
      resize c
                   (mx (mons s ! m) + colwidth nm s m)
                   (my (mons s ! m) + yt m)
                   (mw (mons s ! m) - colwidth nm s m
                     - 2 * bw (store s c))
        ((mh (mons s ! m) - yt m) sdiv (nm m - i m) - 2 * bw (store s c)) s)"
    using assms unfolding tilestep_def ontile_def Let_def by simp
  then show ?thesis by blast
qed

lemma tilestep_other:
  assumes "ontile s m' c" and "m' \<noteq> m"
  shows "\<exists>i' ym' yt' x y w h. tilestep nm c ((i, ym, yt), s) = ((i', ym', yt'), resize c x y w h s)
     \<and> i' m = i m \<and> ym' m = ym m \<and> yt' m = yt m"
proof (cases "i m' < nmain s ! m'")
  case True
  from tilestep_main [of s m' c i nm ym yt] assms(1) True
  obtain x y w i' ym' h where
    "tilestep nm c ((i, ym, yt), s) = ((i', ym', yt), resize c x y w h s)"
    and "i' = i(m' := i m' + 1)"
    and "ym' = ym \<or> (\<exists>v. ym' = ym(m' := v))"
    by (smt (verit, best))
  with assms(2) have "tilestep nm c ((i, ym, yt), s) = ((i', ym', yt), resize c x y w h s)
     \<and> i' m = i m \<and> ym' m = ym m \<and> yt m = yt m"
    by auto
  then show ?thesis by blast
next
  case False
  from tilestep_second [of s m' c i nm ym yt] assms(1) False
  obtain x y w i' yt' h where
    "tilestep nm c ((i, ym, yt), s) = ((i', ym, yt'), resize c x y w h s)"
    and "i' = i(m' := i m' + 1)"
    and "yt' = yt \<or> (\<exists>v. yt' = yt(m' := v))"
    by (smt (verit, best))
  with assms(2) have "tilestep nm c ((i, ym, yt), s) = ((i', ym, yt'), resize c x y w h s)
     \<and> i' m = i m \<and> ym m = ym m \<and> yt' m = yt m"
    by auto
  then show ?thesis by blast
qed

lemma ontile_resize_other:
  "k \<noteq> c \<Longrightarrow> ontile (resize c x y w h s) m k = ontile s m k"
  by (simp add: ontile_def ISVISIBLE_def climon_def)

lemma filter_ontile_resize:
  assumes "c \<notin> set cs"
  shows "filter (ontile (resize c x y w h s) m) cs = filter (ontile s m) cs"
proof (rule filter_cong)
  fix k assume "k \<in> set cs"
  with assms have "k \<noteq> c" by auto
  then show "ontile (resize c x y w h s) m k = ontile s m k"
    by (rule ontile_resize_other)
qed simp







lemma counttiled_eq:
  "counttiled s cs nm m = nm m + int (length (filter (ontile s m) cs))"
  by (induction cs arbitrary: nm) (auto simp: ontile_def)

lemma filter_remove1_not: "\<not> P p \<Longrightarrow> filter P (remove1 p cs) = filter P cs"
  by (induction cs) auto

lemma liftpinned_clients:
  "clients (liftpinned t) =
     (case pinned t of None \<Rightarrow> clients t
      | Some p \<Rightarrow> if isfloating (store t p) then p # remove1 p (clients t) else clients t)"
  by (simp add: liftpinned_def attach_def detach_def split: option.splits)

lemma liftpinned_distinct: "distinct (clients t) \<Longrightarrow> distinct (clients (liftpinned t))"
  by (auto simp: liftpinned_clients split: option.splits)

lemma ontile_cong:
  "store t = store s \<Longrightarrow> tagset t = tagset s \<Longrightarrow> mons t = mons s \<Longrightarrow> ontile t m = ontile s m"
  by (auto simp: ontile_def ISVISIBLE_def climon_def fun_eq_iff)

lemma liftpinned_tiled:
  "filter (ontile (liftpinned t) m) (clients (liftpinned t)) = filter (ontile t m) (clients t)"
proof -
  have "ontile (liftpinned t) m = ontile t m"
    by (rule ontile_cong) simp_all
  then show ?thesis
    by (auto simp: liftpinned_clients filter_remove1_not ontile_def split: option.splits)
qed

lemma focus_clients:
  "distinct (clients s) \<Longrightarrow> distinct (clients (focus c s))"
  "filter (ontile (focus c s) m) (clients (focus c s)) = tiledon s m"
proof -
  obtain r where f: "focus c s = publish (liftpinned (s\<lparr>sel := r\<rparr>))"
    using focus_unfold by blast
  show "distinct (clients s) \<Longrightarrow> distinct (clients (focus c s))"
    by (simp add: f liftpinned_distinct)
  have a: "ontile (publish (liftpinned (s\<lparr>sel := r\<rparr>))) m = ontile (liftpinned (s\<lparr>sel := r\<rparr>)) m"
    by (rule ontile_cong) simp_all
  have b: "ontile (s\<lparr>sel := r\<rparr>) m = ontile s m"
    by (rule ontile_cong) simp_all
  show "filter (ontile (focus c s) m) (clients (focus c s)) = tiledon s m"
    by (simp add: f a liftpinned_tiled b tiledon_def)
qed






section \<open>The end of a tile drag\<close>

lemma resize_tiled_width:
  assumes "\<not> isfloating (store s c)" and "nohints (store s c)" and "1 \<le> w"
  shows "WIDTH (store (resize c x y w h s) c) = w + 2 * bw (store s c)"
  using assms
  by (simp add: resize_def sizelimit_def aspectlimit_def Let_def nohints_def WIDTH_def)

lemma colwidth_cong:
  "nm' m = nm m \<Longrightarrow> mons t = mons s \<Longrightarrow> mfact t = mfact s \<Longrightarrow> nmain t = nmain s
   \<Longrightarrow> colwidth nm' t m = colwidth nm s m"
  by (simp add: colwidth_def)

lemma tileloop_main_width:
  assumes "distinct cs"
    and "A = take (nat (nmain st ! m - i m)) (filter (ontile st m) cs)"
  shows "\<forall>c \<in> set A. nohints (store st c) \<and> 2 * bw (store st c) < colwidth nm st m
           \<longrightarrow> WIDTH (store (snd (tileloop nm cs ((i, ym, yt), st))) c) = colwidth nm st m"
  using assms
proof (induction cs arbitrary: i ym yt st A)
  case Nil
  then show ?case by simp
next
  case (Cons c cs)
  have cn: "c \<notin> set cs" and dcs: "distinct cs"
    using Cons.prems(1) by simp_all
  consider (skip) "\<not> (\<not> isfloating (store st c) \<and> ISVISIBLE st (store st c))"
    | (other) m' where "ontile st m' c" and "m' \<noteq> m"
    | (here) "ontile st m c"
    by (auto simp: ontile_def)
  then show ?case
  proof cases
    case skip
    then have ts: "tilestep nm c ((i, ym, yt), st) = ((i, ym, yt), st)"
      by (rule tilestep_skip)
    have nf: "\<not> ontile st m c" using skip by (auto simp: ontile_def)
    show ?thesis
      using Cons.IH [of A st i ym yt] Cons.prems(2) dcs ts nf by simp
  next
    case other
    from tilestep_other [OF other, of nm i ym yt]
    obtain i' ym' yt' x y w h where
      ts: "tilestep nm c ((i, ym, yt), st) = ((i', ym', yt'), resize c x y w h st)"
      and eqs: "i' m = i m"
      by blast
    let ?st = "resize c x y w h st"
    have nf: "\<not> ontile st m c" using other by (auto simp: ontile_def)
    have f: "filter (ontile ?st m) cs = filter (ontile st m) cs"
      by (rule filter_ontile_resize [OF cn])
    have A: "A = take (nat (nmain st ! m - i m)) (filter (ontile st m) cs)"
      using Cons.prems(2) nf by simp
    then have "set A \<subseteq> set cs"
      by (auto dest: in_set_takeD)
    then have same: "\<forall>k \<in> set A. store ?st k = store st k"
      using cn by (metis resize_other subsetD)
    have cw: "colwidth nm ?st m = colwidth nm st m"
      by (rule colwidth_cong) simp_all
    have A2: "A = take (nat (nmain ?st ! m - i' m)) (filter (ontile ?st m) cs)"
      using A eqs f by simp
    have "\<forall>k \<in> set A. nohints (store ?st k) \<and> 2 * bw (store ?st k) < colwidth nm ?st m
        \<longrightarrow> WIDTH (store (snd (tileloop nm cs ((i', ym', yt'), ?st))) k) = colwidth nm ?st m"
      using dcs A2 by (rule Cons.IH)
    then show ?thesis
      using ts same cw by simp
  next
    case here
    let ?F = "filter (ontile st m) cs"
    let ?K = "nmain st ! m"
    have Ac: "A = take (nat (?K - i m)) (c # ?F)"
      using Cons.prems(2) here by simp
    show ?thesis
    proof (cases "i m < ?K")
      case False
      then show ?thesis using Ac by simp
    next
      case lt: True
      define A' where "A' = take (nat (?K - (i m + 1))) ?F"
      have "nat (?K - i m) = Suc (nat (?K - (i m + 1)))"
        using lt by simp
      with Ac have AA: "A = c # A'"
        by (simp add: A'_def)
      define W where "W = colwidth nm st m"
      from tilestep_main_eq [of st m c i nm ym yt] here lt
      obtain x y h ym' where
        ts: "tilestep nm c ((i, ym, yt), st) =
          ((i(m := i m + 1), ym', yt), resize c x y (W - 2 * bw (store st c)) h st)"
        unfolding W_def by blast
      let ?st = "resize c x y (W - 2 * bw (store st c)) h st"
      have keep: "store (snd (tileloop nm cs (cnt, ?st))) c = store ?st c" for cnt
        by (rule tileloop_untouched [OF cn])
      have nfl: "\<not> isfloating (store st c)" using here by (simp add: ontile_def)
      have hd: "nohints (store st c) \<and> 2 * bw (store st c) < W
          \<longrightarrow> WIDTH (store (snd (tileloop nm (c # cs) ((i, ym, yt), st))) c) = W"
        using resize_tiled_width [OF nfl, of "W - 2 * bw (store st c)" x y h] ts keep
        by simp
      have f: "filter (ontile ?st m) cs = ?F"
        by (rule filter_ontile_resize [OF cn])
      have "set A' \<subseteq> set cs"
        by (auto simp: A'_def dest: in_set_takeD)
      then have same: "\<forall>k \<in> set A'. store ?st k = store st k"
        using cn by (metis resize_other subsetD)
      have cw: "colwidth nm ?st m = W"
        unfolding W_def by (rule colwidth_cong) simp_all
      have A2: "A' = take (nat (nmain ?st ! m - (i(m := i m + 1)) m)) (filter (ontile ?st m) cs)"
        using f by (simp add: A'_def)
      have "\<forall>k \<in> set A'. nohints (store ?st k) \<and> 2 * bw (store ?st k) < colwidth nm ?st m
          \<longrightarrow> WIDTH (store (snd (tileloop nm cs ((i(m := i m + 1), ym', yt), ?st))) k)
                = colwidth nm ?st m"
        using dcs A2 by (rule Cons.IH)
      then have tl: "\<forall>k \<in> set A'. nohints (store st k) \<and> 2 * bw (store st k) < W
          \<longrightarrow> WIDTH (store (snd (tileloop nm (c # cs) ((i, ym, yt), st))) k) = W"
        using ts same cw by simp
      show ?thesis
        using hd tl unfolding AA W_def by simp
    qed
  qed
qed

lemma arrange_main_width:
  assumes "distinct (clients s)"
  shows "\<forall>c \<in> set (maintiles s m). nohints (store s c) \<and> 2 * bw (store s c) < mainwidth s m
           \<longrightarrow> WIDTH (store (arrange s) c) = mainwidth s m"
proof -
  define s1 where "s1 = focus None s"
  define nm where "nm = counttiled s1 (clients s1) (\<lambda>_. 0)"
  have st: "store (arrange s) = store (snd (tileloop nm (clients s1)
              (((\<lambda>_. 0), (\<lambda>_. 0), (\<lambda>_. 0)), s1)))"
    by (simp add: arrange_store s1_def nm_def)
  have d1: "distinct (clients s1)"
    using assms(1) by (simp add: s1_def focus_clients(1))
  have T: "filter (ontile s1 m) (clients s1) = tiledon s m"
    by (simp add: s1_def focus_clients(2))
  have nmm: "nm m = int (length (tiledon s m))"
    using T by (simp add: nm_def counttiled_eq)
  have same: "store s1 = store s" "mons s1 = mons s" "nmain s1 = nmain s" "mfact s1 = mfact s"
    by (simp_all add: s1_def)
  have cw: "colwidth nm s1 m = mainwidth s m"
    unfolding mainwidth_def by (rule colwidth_cong) (simp_all add: nmm same)
  have part: "maintiles s m = take (nat (nmain s1 ! m - (\<lambda>_. 0::int) m))
                (filter (ontile s1 m) (clients s1))"
    by (simp add: maintiles_def T same)
  from tileloop_main_width [OF d1 part, of nm "\<lambda>_. 0" "\<lambda>_. 0"]
  show ?thesis
    by (simp add: st same cw)
qed

lemma dragtile3_facts:
  "ctrlmode dragtile3 = DragTile \<and> sel dragtile3 = Some 3
   \<and> monfirst (mons dragtile3) (cx (store dragtile3 3)) (cy (store dragtile3 3)) = 0
   \<and> HEIGHT (store dragtile3 3) = 1080 \<and> WIDTH (store dragtile3 3) = 1600
   \<and> mw (mons dragtile3 ! 0) = 1920 \<and> mh (mons dragtile3 ! 0) = 1080
   \<and> length (mfact dragtile3) = 1 \<and> length (nmain dragtile3) = 1
   \<and> distinct (clients dragtile3)
   \<and> maintiles (dragparams dragtile3 3 0) 0 = [3]
   \<and> nohints (store dragtile3 3) \<and> bw (store dragtile3 3) = 1
   \<and> mainwidth (dragparams dragtile3 3 0) 0 = 1600"
  by code_simp

lemma dragtile3_result:
  "mfact (projr (grabresizeabort dragtile3)) ! 0 = 13981013 / 16777216
   \<and> nmain (projr (grabresizeabort dragtile3)) ! 0 = 1
   \<and> map (\<lambda>k. rect (store (projr (grabresizeabort dragtile3)) k)) [3, 2, 1] =
       [(0, 0, 1600, 1080), (1600, 0, 320, 540), (1600, 540, 320, 540)]"
  by code_simp

lemma dragflat_fault:
  "ctrlmode dragflat = DragTile \<and> sel dragflat = Some 3 \<and> HEIGHT (store dragflat 3) = 0
   \<and> isl (grabresizeabort dragflat) \<and> projl (grabresizeabort dragflat) = DivByZero"
  by code_simp

text \<open>
  Claim C7, as amended. When a tile drag ends (\<^verbatim>\<open>grabresizeabort\<close> in
  \<^verbatim>\<open>DragTile\<close> mode with a selected client) and the selected client has a
  nonzero full height, and not both its full width and the monitor width are
  zero, the monitor found for the client's position (one that holds the
  position whenever some monitor does) gets \<^verbatim>\<open>mfact\<close> set to the
  single-precision quotient of the client's full width by the monitor width,
  clamped to 0.05 .. 0.95 and stored in single precision, which is within
  \<open>1 / 2 ^ 21\<close> of the exact clamped ratio on a monitor of nonzero width; and
  \<^verbatim>\<open>nmain\<close> set to the floor of the monitor height over the client's full
  height, at least 1. The layout is then recomputed with these parameters and
  the drag is released: every client of the main region of that monitor
  without size hints, whose borders leave room, then has the full width
  \<open>mainwidth\<close>, the monitor width times the new factor when there are more
  tiled clients than the main region takes. A full width of 1600 on a monitor
  1920 wide gives the factor 13981013/16777216, and the main region the width
  1600.
\<close>

theorem grabresizeabort_tile:
  assumes "ctrlmode s = DragTile" and "sel s = Some k"
    and "m = monfirst (mons s) (cx (store s k)) (cy (store s k))"
    and "HEIGHT (store s k) \<noteq> 0"
    and "WIDTH (store s k) \<noteq> 0 \<or> mw (mons s ! m) \<noteq> 0"
    and "m < length (mfact s)" and "m < length (nmain s)"
    and "distinct (clients s)"
  shows "grabresizeabort s =
           Inr ((arrange (dragparams s k m))\<lparr>ptrgrab := False, ctrlmode := CtrlNone\<rparr>)
       \<and> mfact (projr (grabresizeabort s)) ! m =
           the (clampratio (WIDTH (store s k)) (mw (mons s ! m)))
       \<and> (mw (mons s ! m) \<noteq> 0 \<longrightarrow>
            \<bar>mfact (projr (grabresizeabort s)) ! m
              - min (95 / 100) (max (5 / 100)
                  (of_int (WIDTH (store s k)) / of_int (mw (mons s ! m))))\<bar> \<le> 1 / 2 ^ 21)
       \<and> nmain (projr (grabresizeabort s)) ! m =
           max 1 (mh (mons s ! m) div HEIGHT (store s k))
       \<and> ((\<exists>j < length (mons s). INMON (cx (store s k)) (cy (store s k)) (mons s ! j))
            \<longrightarrow> INMON (cx (store s k)) (cy (store s k)) (mons s ! m))
       \<and> (\<forall>c \<in> set (maintiles (dragparams s k m) m).
            nohints (store s c) \<and> 2 * bw (store s c) < mainwidth (dragparams s k m) m
            \<longrightarrow> WIDTH (store (projr (grabresizeabort s)) c) = mainwidth (dragparams s k m) m)"
proof -
  have "clampratio (WIDTH (store s k)) (mw (mons s ! m)) \<noteq> None"
    using assms(5) by (auto simp: clampratio_def)
  then obtain f where f: "clampratio (WIDTH (store s k)) (mw (mons s ! m)) = Some f"
    by blast
  have eq: "grabresizeabort s =
           Inr ((arrange (dragparams s k m))\<lparr>ptrgrab := False, ctrlmode := CtrlNone\<rparr>)"
    using assms(1-4) f by (simp add: grabresizeabort_def dragparams_def Let_def sdiv_max1)
  have inm: "(\<exists>j < length (mons s). INMON (cx (store s k)) (cy (store s k)) (mons s ! j))
            \<longrightarrow> INMON (cx (store s k)) (cy (store s k)) (mons s ! m)"
    using monfirst_holds assms(3) by blast
  have mf: "mfact (projr (grabresizeabort s)) ! m =
           the (clampratio (WIDTH (store s k)) (mw (mons s ! m)))"
    using assms(6,7) by (simp add: eq dragparams_def)
  have nm: "nmain (projr (grabresizeabort s)) ! m =
           max 1 (mh (mons s ! m) div HEIGHT (store s k))"
    using assms(6,7) by (simp add: eq dragparams_def)
  have near: "mw (mons s ! m) \<noteq> 0 \<longrightarrow>
            \<bar>mfact (projr (grabresizeabort s)) ! m
              - min (95 / 100) (max (5 / 100)
                  (of_int (WIDTH (store s k)) / of_int (mw (mons s ! m))))\<bar> \<le> 1 / 2 ^ 21"
    unfolding mf using clampratio_near [of "mw (mons s ! m)" "WIDTH (store s k)"] by blast
  have d: "distinct (clients (dragparams s k m))"
    using assms(8) by (simp add: dragparams_def)
  have wd: "\<forall>c \<in> set (maintiles (dragparams s k m) m).
            nohints (store s c) \<and> 2 * bw (store s c) < mainwidth (dragparams s k m) m
            \<longrightarrow> WIDTH (store (projr (grabresizeabort s)) c) = mainwidth (dragparams s k m) m"
    using arrange_main_width [OF d, of m] by (simp add: eq) (simp add: dragparams_def)
  show ?thesis
    using eq mf near nm inm wd by blast
qed

theorem grabresizeabort_tile_witness:
  "ctrlmode dragtile3 = DragTile \<and> sel dragtile3 = Some 3
   \<and> WIDTH (store dragtile3 3) = 1600 \<and> HEIGHT (store dragtile3 3) = 1080
   \<and> mw (mons dragtile3 ! 0) = 1920 \<and> mh (mons dragtile3 ! 0) = 1080
   \<and> grabresizeabort dragtile3 =
       Inr ((arrange (dragparams dragtile3 3 0))\<lparr>ptrgrab := False, ctrlmode := CtrlNone\<rparr>)
   \<and> mfact (projr (grabresizeabort dragtile3)) ! 0 = 13981013 / 16777216
   \<and> \<bar>mfact (projr (grabresizeabort dragtile3)) ! 0 - 1600 / 1920\<bar> \<le> 1 / 2 ^ 21
   \<and> nmain (projr (grabresizeabort dragtile3)) ! 0 = 1
   \<and> maintiles (dragparams dragtile3 3 0) 0 = [3]
   \<and> WIDTH (store (projr (grabresizeabort dragtile3)) 3) = 1600
   \<and> map (\<lambda>k. rect (store (projr (grabresizeabort dragtile3)) k)) [3, 2, 1] =
       [(0, 0, 1600, 1080), (1600, 0, 320, 540), (1600, 540, 320, 540)]"
  using grabresizeabort_tile [of dragtile3 3 0] dragtile3_facts dragtile3_result
  by auto

text \<open>
  The claim C7 as stated fails: the factor stored for a full width of 1600 on
  a monitor 1920 wide is not 1600/1920, which no float holds. And for a
  selected client of full height 0 the division traps.
\<close>

theorem grabresizeabort_tile_counterexample:
  "ctrlmode dragtile3 = DragTile \<and> sel dragtile3 = Some 3
   \<and> WIDTH (store dragtile3 3) = 1600 \<and> mw (mons dragtile3 ! 0) = 1920
   \<and> mfact (projr (grabresizeabort dragtile3)) ! 0 \<noteq> 1600 / 1920
   \<and> ctrlmode dragflat = DragTile \<and> sel dragflat = Some 3
   \<and> HEIGHT (store dragflat 3) = 0
   \<and> grabresizeabort dragflat = Inl DivByZero"
  using dragtile3_facts dragtile3_result dragflat_fault
  by (cases "grabresizeabort dragflat") simp_all

section \<open>Fullscreen and back\<close>

lemma snapgeom_cong: "screen s = screen t \<Longrightarrow> snapgeom s = snapgeom t"
  by (simp add: snapgeom_def screen_def fun_eq_iff cong del: if_weak_cong)

lemma aspectlimit_cong: "sizing a = sizing b \<Longrightarrow> aspectlimit a = aspectlimit b"
  by (simp add: aspectlimit_def sizing_def fun_eq_iff cong del: if_weak_cong)

lemma sizelimit_cong: "sizing a = sizing b \<Longrightarrow> sizelimit a = sizelimit b"
  by (simp add: sizelimit_def sizing_def fun_eq_iff cong del: if_weak_cong)

lemma resize_geom_cong:
  assumes "sizing (store s c) = sizing (store t c)" and "screen s = screen t"
  shows "geom (store (resize c x y w h s) c) = geom (store (resize c x y w h t) c)"
proof -
  have "bw (store s c) = bw (store t c)" "isfloating (store s c) = isfloating (store t c)"
    "isfullscreen (store s c) = isfullscreen (store t c)"
    "basew (store s c) = basew (store t c)" "baseh (store s c) = baseh (store t c)"
    using assms(1) by (simp_all add: sizing_def)
  moreover have "sw s = sw t" "sh s = sh t"
    using assms(2) by (simp_all add: screen_def)
  ultimately show ?thesis
    by (simp add: resize_def Let_def geom_def snapgeom_cong [OF assms(2)]
        aspectlimit_cong [OF assms(1)] sizelimit_cong [OF assms(1)])
qed

lemma resize_keeps_remembered:
  assumes "isfullscreen (store s c) \<or> \<not> isfloating (store s c)"
  shows "fx (store (resize c x y w h s) c) = fx (store s c)"
    and "fy (store (resize c x y w h s) c) = fy (store s c)"
    and "fw (store (resize c x y w h s) c) = fw (store s c)"
    and "fh (store (resize c x y w h s) c) = fh (store s c)"
  using assms by (auto simp: resize_def Let_def)

lemma tileloop_floating:
  "isfloating (store s k) \<Longrightarrow> store (snd (tileloop nm cs (cnt, s))) k = store s k"
proof (induction cs arbitrary: cnt s)
  case Nil
  then show ?case by simp
next
  case (Cons a cs)
  obtain cnt' s' where ts: "tilestep nm a (cnt, s) = (cnt', s')"
    by (cases "tilestep nm a (cnt, s)")
  have "store s' k = store s k"
    using tilestep_cases [of nm a cnt s] ts Cons.prems by (metis resize_other snd_conv)
  then show ?case
    using Cons.IH [of s' cnt'] Cons.prems ts by simp
qed

lemma arrange_floating: "isfloating (store s k) \<Longrightarrow> store (arrange s) k = store s k"
  by (simp add: arrange_store tileloop_floating)

lemma arrange_screen [simp]: "screen (arrange s) = screen s"
  by (simp add: screen_def)

lemma restack_screen [simp]: "screen (restack c mode s) = screen s"
  by (simp add: screen_def)

lemma resize_screen [simp]: "screen (resize c x y w h s) = screen s"
  by (simp add: screen_def)

lemma setfullscreen_enter:
  assumes "\<not> isfullscreen (store s c)"
  shows "\<exists>X Y W H. setfullscreen c True s =
           arrange (restack (Some c) CliZoom (resize c X Y W H
             (s\<lparr>store := (store s)(c := (store s c)\<lparr>isfullscreen := True,
                  fstate := isfloating (store s c), fbw := bw (store s c), bw := 0,
                  isfloating := True\<rparr>)\<rparr>)))"
  using assms unfolding setfullscreen_def Let_def by auto

lemma setfullscreen_leave:
  assumes "isfullscreen (store t c)"
  shows "setfullscreen c False t =
           arrange (resize c (fx (store t c)) (fy (store t c)) (fw (store t c)) (fh (store t c))
             (t\<lparr>store := (store t)(c := (store t c)\<lparr>isfullscreen := False,
                  isfloating := fstate (store t c), bw := fbw (store t c)\<rparr>)\<rparr>))"
  using assms unfolding setfullscreen_def Let_def by simp

lemma setfullscreen_enter_client:
  assumes "\<not> isfullscreen (store s c)"
  shows "\<exists>X Y W H. store (setfullscreen c True s) c =
           (store s c)\<lparr>isfullscreen := True, fstate := isfloating (store s c),
              fbw := bw (store s c), bw := 0, isfloating := True,
              cx := X, cy := Y, cw := W, ch := H\<rparr>"
proof -
  let ?cl = "(store s c)\<lparr>isfullscreen := True, fstate := isfloating (store s c),
                fbw := bw (store s c), bw := 0, isfloating := True\<rparr>"
  let ?sA = "s\<lparr>store := (store s)(c := ?cl)\<rparr>"
  obtain X Y W H where e: "setfullscreen c True s =
      arrange (restack (Some c) CliZoom (resize c X Y W H ?sA))"
    using setfullscreen_enter [OF assms] by blast
  let ?sB = "resize c X Y W H ?sA"
  have "isfloating (store (restack (Some c) CliZoom ?sB) c)" by simp
  then have "store (setfullscreen c True s) c = store ?sB c"
    unfolding e by (simp add: arrange_floating)
  moreover have "\<exists>X' Y' W' H'. store ?sB c = ?cl\<lparr>cx := X', cy := Y', cw := W', ch := H'\<rparr>"
    by (simp add: resize_def Let_def) blast
  ultimately show ?thesis by auto
qed

lemma resize_idem:
  assumes "isfloating (store s c)" and "\<not> isfullscreen (store s c)"
    and "0 \<le> bw (store s c)" and "1 \<le> sw s" and "1 \<le> sh s"
  shows "geom (store (resize c (fx (store (resize c x y w h s) c))
           (fy (store (resize c x y w h s) c)) (fw (store (resize c x y w h s) c))
           (fh (store (resize c x y w h s) c)) (resize c x y w h s)) c)
         = geom (store (resize c x y w h s) c)"
proof -
  let ?s = "resize c x y w h s"
  have siz: "sizing (store ?s c) = sizing (store s c)" by (simp add: sizing_def)
  have scr: "screen ?s = screen s" by simp
  define w1 where "w1 = max 1 w"
  define h1 where "h1 = max 1 h"
  define x1 where "x1 = max (1 - w1 - 2 * bw (store s c)) (min (sw s - 1) x)"
  define y1 where "y1 = max (1 - h1 - 2 * bw (store s c)) (min (sh s - 1) y)"
  have f: "fx (store ?s c) = x1" "fy (store ?s c) = y1" "fw (store ?s c) = w1"
    "fh (store ?s c) = h1"
    using assms(1,2) by (simp_all add: resize_def Let_def x1_def y1_def w1_def h1_def)
  have idem: "max 1 w1 = w1" "max 1 h1 = h1"
    "max (1 - w1 - 2 * bw (store s c)) (min (sw s - 1) x1) = x1"
    "max (1 - h1 - 2 * bw (store s c)) (min (sh s - 1) y1) = y1"
    using assms(3-5) by (auto simp: x1_def y1_def w1_def h1_def)
  have "geom (store (resize c x1 y1 w1 h1 ?s) c) = geom (store (resize c x1 y1 w1 h1 s) c)"
    by (rule resize_geom_cong [OF siz scr])
  also have "\<dots> = geom (store ?s c)"
    unfolding resize_def Let_def geom_def idem
    by (simp add: x1_def y1_def w1_def h1_def)
  finally show ?thesis by (simp add: f)
qed

text \<open>
  Claim C3, as amended. For a client that is not fullscreen, \<^verbatim>\<open>setfullscreen(c, 1)\<close>
  followed by \<^verbatim>\<open>setfullscreen(c, 0)\<close> restores the floating flag and the border
  width. If the client is floating, its geometry afterwards is the one
  \<^verbatim>\<open>resize\<close> computes from the remembered floating geometry
  \<^verbatim>\<open>(fx, fy, fw, fh)\<close>; so the geometry is restored whenever it was itself the
  result of such a resize (by \<open>resize_idem\<close>, after any resize of the floating
  client).
\<close>

theorem setfullscreen_roundtrip:
  assumes "\<not> isfullscreen (store s c)"
  shows "isfloating (store (setfullscreen c False (setfullscreen c True s)) c)
           = isfloating (store s c)
       \<and> bw (store (setfullscreen c False (setfullscreen c True s)) c) = bw (store s c)
       \<and> \<not> isfullscreen (store (setfullscreen c False (setfullscreen c True s)) c)
       \<and> (isfloating (store s c) \<longrightarrow>
            geom (store (setfullscreen c False (setfullscreen c True s)) c)
              = geom (store (resize c (fx (store s c)) (fy (store s c))
                               (fw (store s c)) (fh (store s c)) s) c))
       \<and> (isfloating (store s c)
            \<and> geom (store (resize c (fx (store s c)) (fy (store s c))
                               (fw (store s c)) (fh (store s c)) s) c) = geom (store s c)
            \<longrightarrow> geom (store (setfullscreen c False (setfullscreen c True s)) c)
                  = geom (store s c))"
proof -
  define s1 where "s1 = setfullscreen c True s"
  obtain X Y W H where c1: "store s1 c =
      (store s c)\<lparr>isfullscreen := True, fstate := isfloating (store s c),
         fbw := bw (store s c), bw := 0, isfloating := True,
         cx := X, cy := Y, cw := W, ch := H\<rparr>"
    using setfullscreen_enter_client [OF assms] unfolding s1_def by blast
  have scr1: "screen s1 = screen s"
    using setfullscreen_enter [OF assms] by (auto simp: s1_def screen_def)
  have full1: "isfullscreen (store s1 c)" by (simp add: c1)
  define clD where "clD = (store s1 c)\<lparr>isfullscreen := False,
      isfloating := fstate (store s1 c), bw := fbw (store s1 c)\<rparr>"
  define sD where "sD = s1\<lparr>store := (store s1)(c := clD)\<rparr>"
  define sE where "sE = resize c (fx (store s c)) (fy (store s c)) (fw (store s c))
      (fh (store s c)) sD"
  have s2: "setfullscreen c False s1 = arrange sE"
    using setfullscreen_leave [OF full1] by (simp add: sE_def sD_def clD_def c1)
  have D: "store sD c = clD" by (simp add: sD_def)
  have flags: "isfloating clD = isfloating (store s c)" "bw clD = bw (store s c)"
    "\<not> isfullscreen clD"
    by (simp_all add: clD_def c1)
  have siz: "sizing (store sD c) = sizing (store s c)"
    using assms by (simp add: D sizing_def clD_def c1)
  have scrD: "screen sD = screen s"
    using scr1 by (simp add: sD_def screen_def)
  have g: "geom (store sE c) = geom (store (resize c (fx (store s c)) (fy (store s c))
                               (fw (store s c)) (fh (store s c)) s) c)"
    unfolding sE_def by (rule resize_geom_cong [OF siz scrD])
  have fl: "isfloating (store (arrange sE) c) = isfloating (store s c)"
    by (simp add: sE_def D flags)
  have b: "bw (store (arrange sE) c) = bw (store s c)"
    by (simp add: sE_def D flags)
  have nf: "\<not> isfullscreen (store (arrange sE) c)"
    by (simp add: sE_def D flags)
  have geo: "geom (store (arrange sE) c) = geom (store (resize c (fx (store s c))
      (fy (store s c)) (fw (store s c)) (fh (store s c)) s) c)" if "isfloating (store s c)"
  proof -
    have "isfloating (store sE c)" using that by (simp add: sE_def D flags)
    then have "store (arrange sE) c = store sE c" by (rule arrange_floating)
    then show ?thesis using g by simp
  qed
  show ?thesis
    unfolding s1_def [symmetric] s2 using fl b nf geo by simp
qed

theorem setfullscreen_roundtrip_witness:
  "\<not> isfullscreen (store float1 1) \<and> isfloating (store float1 1)
   \<and> geom (store float1 1) = (100, 100, 500, 400)
   \<and> geom (store (setfullscreen 1 False (setfullscreen 1 True float1)) 1) = (100, 100, 500, 400)
   \<and> isfloating (store (setfullscreen 1 False (setfullscreen 1 True float1)) 1)
   \<and> bw (store (setfullscreen 1 False (setfullscreen 1 True float1)) 1) = 1"
  using setfullscreen_roundtrip [of float1 1]
  by (simp add: resize_def snapgeom_def aspectlimit_def sizelimit_def Let_def geom_def
      float1_def wm0_def tiledclient_def client0_def)

text \<open>
  The claim C3 as stated, for every client, fails in two ways. A tiled client is
  moved to the head of the registry on entering fullscreen and is tiled from
  there afterwards: the second of three tiled clients comes back in the main
  region. A floating client whose hints changed since its last resize comes
  back with the size the new hints give.
\<close>

theorem setfullscreen_roundtrip_counterexample:
  "\<not> isfullscreen (store tiled3a 2)
   \<and> geom (store tiled3a 2) = (1152, 0, 766, 538)
   \<and> geom (store (setfullscreen 2 False (setfullscreen 2 True tiled3a)) 2) = (0, 0, 1150, 1078)
   \<and> \<not> isfullscreen (store stale1 1)
   \<and> geom (store stale1 1) = (100, 100, 500, 400)
   \<and> geom (store (setfullscreen 1 False (setfullscreen 1 True stale1)) 1) = (100, 100, 800, 400)"
  by code_simp

end
